theory Spec2Isabelle
  imports Main "HOL-Library.Word"
begin

section \<open>MpiHost: the host side of the MPI-over-UDP protocol (lib/libmpi/MpiHost.cpp)\<close>

text \<open>
  A shallow embedding of \<^verbatim>\<open>MpiHost.cpp\<close>. Every member function of the class is a HOL
  function on an explicit state; every early return is a branch. What the file takes
  from headers that are not part of the sources (\<^verbatim>\<open>MpiProxy.h\<close>, \<^verbatim>\<open>MpiHost.h\<close>,
  \<^verbatim>\<open>Types.h\<close>, \<^verbatim>\<open>Index.h\<close>, \<^verbatim>\<open>String.h\<close>) is either a field of the record
  \<open>env\<close> (constants and widths) or a small definition marked as modelled.
\<close>

subsection \<open>Data\<close>

type_synonym u8 = "8 word"

text \<open>The result codes the file returns (\<^verbatim>\<open>MpiBackend::Result\<close>, the MPI error classes).\<close>

datatype Result =
    MPI_SUCCESS
  | MPI_ERR_ARG
  | MPI_ERR_IO
  | MPI_ERR_NO_MEM
  | MPI_ERR_RANK
  | MPI_ERR_UNSUPPORTED_DATAREP

text \<open>
  \<^verbatim>\<open>MPI_Datatype\<close>: the two members the file handles, and \<open>MPI_OTHER k\<close> for every
  other member of the enumeration (the \<^verbatim>\<open>default:\<close> branch of both switches).
\<close>

datatype MPI_Datatype = MPI_INT | MPI_UNSIGNED_CHAR | MPI_OTHER nat

text \<open>\<^verbatim>\<open>MpiProxy::Operation\<close>, the operation codes of the packet header.\<close>

datatype Operation = MpiOpSend | MpiOpRecv | MpiOpExec | MpiOpTerminate

text \<open>
  Modelled from the spec: \<^verbatim>\<open>MpiHost::Node\<close> is declared in MpiHost.h. The spec gives
  its fields: a 32-bit address in network byte order, a 16-bit port and the core
  identifier, a non-negative integer (32 bits here).
\<close>

record Node =
  ipAddress :: "32 word"
  udpPort :: "16 word"
  coreId :: "32 word"

text \<open>
  \<^verbatim>\<open>MpiProxy::Header\<close> is declared in MpiProxy.h. The fields are the ones the file
  assigns and reads (operation, result, rankId, datatype, datacount, coreId, coreCount),
  with the prefix \<open>h_\<close>. Their widths are not known from the sources: the numeric fields
  are unbounded integers, so that a value stored in a field is read back unchanged.
\<close>

record Header =
  h_operation :: Operation
  h_result :: int
  h_rankId :: int
  h_datatype :: MPI_Datatype
  h_datacount :: int
  h_coreId :: int
  h_coreCount :: int

text \<open>
  A packet buffer \<^verbatim>\<open>u8 packet[MaximumPacketSize]\<close>, read through the header overlay:
  the header, and the bytes that follow it.
\<close>

type_synonym packet = "Header \<times> u8 list"

text \<open>What the file system answers for a path: the three ways \<^verbatim>\<open>parseHostsFile\<close> can
  fail before it has the text, or the bytes of the file.\<close>

datatype hostsfile = StatFails | FopenFails | FreadFails | Contents string

text \<open>
  The constants of the absent headers and the answers of the operating system, which the
  code cannot influence:
  \<^item> \<open>headerSize\<close> is \<^verbatim>\<open>sizeof(MpiProxy::Header)\<close>, \<open>maxPacketSize\<close> is
    \<^verbatim>\<open>MpiProxy::MaximumPacketSize\<close>;
  \<^item> \<open>sizeBits\<close> is the width of the unsigned type \<^verbatim>\<open>Size\<close>, \<open>sizetBits\<close> the width of
    \<^verbatim>\<open>size_t\<close> (the type of \<^verbatim>\<open>sizeof\<close>);
  \<^item> \<open>maxNodes\<close> is the capacity of the \<^verbatim>\<open>Index\<close> that holds \<^verbatim>\<open>m_nodes\<close>;
  \<^item> \<open>heapLimit\<close> is the number of allocations \<^verbatim>\<open>operator new\<close> serves before it
    returns a null pointer;
  \<^item> \<open>hostsFiles\<close> is the file system, \<open>socketRc\<close> and \<open>bindRc\<close> are what
    \<^verbatim>\<open>socket\<close> and \<^verbatim>\<open>bind\<close> return, \<open>sendtoRc k\<close> is what the \<open>k\<close>-th call of
    \<^verbatim>\<open>sendto\<close> returns (counted from 0);
  \<^item> \<open>stackHdr\<close> is the indeterminate content of the header bytes of a packet buffer
    that lives on the stack, before the code assigns any field.
\<close>

record env =
  headerSize :: nat
  maxPacketSize :: nat
  sizeBits :: nat
  sizetBits :: nat
  maxNodes :: nat
  heapLimit :: nat
  hostsFiles :: "string \<Rightarrow> hostsfile"
  socketRc :: int
  bindRc :: int
  sendtoRc :: "nat \<Rightarrow> int"
  stackHdr :: Header

text \<open>One call of \<^verbatim>\<open>sendto\<close>: the node addressed, the header of the buffer, the
  bytes of the buffer after the header that the call transmits, and the byte count
  passed to the call.\<close>

record sendto_call =
  s_dest :: Node
  s_hdr :: Header
  s_payload :: "u8 list"
  s_size :: nat

text \<open>What \<^verbatim>\<open>recvfrom\<close> delivers: an error, or a datagram (header and payload bytes).
  A datagram always holds a whole header.\<close>

datatype recv_event = RecvError | Datagram Header "u8 list"

text \<open>
  The state: the members \<open>m_nodes\<close> and \<open>m_sock\<close> of the class, the two function-local
  \<^verbatim>\<open>static\<close> packet buffers (of \<^verbatim>\<open>receive\<close> and of \<^verbatim>\<open>terminate\<close>), the number of
  allocations made so far, and the UDP socket as the code sees it: the log of the
  \<^verbatim>\<open>sendto\<close> calls made (oldest first) and the datagrams and errors that \<^verbatim>\<open>recvfrom\<close>
  will deliver, in order. With an empty \<open>inbox\<close>, \<^verbatim>\<open>recvfrom\<close> blocks forever.
\<close>

record MpiHost =
  m_nodes :: "Node list"
  m_sock :: int
  recvPacket :: packet
  termPacket :: packet
  allocs :: nat
  sent :: "sendto_call list"
  inbox :: "recv_event list"

text \<open>How a call ends: it returns a result code, it blocks forever in \<^verbatim>\<open>recvfrom\<close>, or
  it reads or writes outside an array or through a null pointer (undefined behaviour).\<close>

datatype outcome = Returns Result | Blocked | Undefined

subsection \<open>Unsigned arithmetic\<close>

text \<open>The conversion of an \<^verbatim>\<open>int\<close> to \<^verbatim>\<open>Size\<close>, and the reduction of an unsigned result
  to the width of \<^verbatim>\<open>Size\<close>, and to the wider of \<^verbatim>\<open>Size\<close> and \<^verbatim>\<open>size_t\<close>.\<close>

definition toSize :: "env \<Rightarrow> int \<Rightarrow> nat" where
  "toSize e x = nat (x mod 2 ^ sizeBits e)"

definition wrapSize :: "env \<Rightarrow> nat \<Rightarrow> nat" where
  "wrapSize e n = n mod 2 ^ sizeBits e"

definition wrapWide :: "env \<Rightarrow> nat \<Rightarrow> nat" where
  "wrapWide e n = n mod 2 ^ max (sizeBits e) (sizetBits e)"

text \<open>The bytes a packet buffer has after its header.\<close>

definition payloadCapacity :: "env \<Rightarrow> nat" where
  "payloadCapacity e = maxPacketSize e - headerSize e"

subsection \<open>The node registry\<close>

text \<open>
  Modelled from the spec: \<^verbatim>\<open>Index\<close> (Index.h) is not part of the sources. The registry
  is the list of its nodes in rank order; \<open>get\<close> answers a position in range, \<open>insert\<close>
  appends at the first free position and fails when the index is full, \<open>count\<close> is the
  number of nodes.
\<close>

definition get :: "Node list \<Rightarrow> nat \<Rightarrow> Node option" where
  "get nodes position = (if position < length nodes then Some (nodes ! position) else None)"

definition insert_node :: "env \<Rightarrow> Node \<Rightarrow> MpiHost \<Rightarrow> MpiHost option" where
  "insert_node e node h =
     (if length (m_nodes h) < maxNodes e
      then Some (h\<lparr>m_nodes := m_nodes h @ [node]\<rparr>)
      else None)"

text \<open>\<^verbatim>\<open>operator new\<close>: \<open>None\<close> is the null pointer.\<close>

definition alloc :: "env \<Rightarrow> MpiHost \<Rightarrow> MpiHost option" where
  "alloc e h = (if allocs h < heapLimit e then Some (h\<lparr>allocs := Suc (allocs h)\<rparr>) else None)"

subsection \<open>sendPacket and receivePacket\<close>

definition sendPacket :: "env \<Rightarrow> nat \<Rightarrow> packet \<Rightarrow> nat \<Rightarrow> MpiHost \<Rightarrow> Result \<times> MpiHost" where
  "sendPacket e nodeId pkt sz h =
     (case get (m_nodes h) nodeId of
        None \<Rightarrow> (MPI_ERR_ARG, h)
      | Some node \<Rightarrow>
          (let h' = h\<lparr>sent := sent h @
                      [\<lparr>s_dest = node, s_hdr = fst pkt,
                        s_payload = take (sz - headerSize e) (snd pkt), s_size = sz\<rparr>]\<rparr>
           in if sendtoRc e (length (sent h)) \<le> 0 then (MPI_ERR_IO, h') else (MPI_SUCCESS, h')))"

text \<open>
  \<^verbatim>\<open>receivePacket\<close> on a packet buffer: \<open>None\<close> when \<^verbatim>\<open>recvfrom\<close> never returns. A
  datagram overwrites the header and the first bytes after it; the bytes of the buffer
  behind the datagram keep their old content, and a datagram longer than the buffer is
  cut to it.
\<close>

definition receivePacket :: "env \<Rightarrow> packet \<Rightarrow> MpiHost \<Rightarrow> (Result \<times> packet \<times> MpiHost) option" where
  "receivePacket e pkt h =
     (case inbox h of
        [] \<Rightarrow> None
      | RecvError # rest \<Rightarrow> Some (MPI_ERR_IO, pkt, h\<lparr>inbox := rest\<rparr>)
      | Datagram dh dp # rest \<Rightarrow>
          Some (MPI_SUCCESS,
                (dh, take (payloadCapacity e) (dp @ drop (length dp) (snd pkt))),
                h\<lparr>inbox := rest\<rparr>))"

subsection \<open>getCommRank and getCommSize\<close>

text \<open>Both take the communicator and write through the pointer: the value written is
  returned next to the result code.\<close>

definition getCommRank :: "'comm \<Rightarrow> MpiHost \<Rightarrow> Result \<times> int" where
  "getCommRank comm h = (MPI_SUCCESS, 0)"

definition getCommSize :: "'comm \<Rightarrow> MpiHost \<Rightarrow> Result \<times> int" where
  "getCommSize comm h = (MPI_SUCCESS, int (length (m_nodes h)))"

subsection \<open>send\<close>

text \<open>The \<^verbatim>\<open>switch\<close> at the head of \<^verbatim>\<open>send\<close>: \<^verbatim>\<open>sizeof(int)\<close> is 4, \<^verbatim>\<open>sizeof(u8)\<close> is 1,
  and \<open>None\<close> is the \<^verbatim>\<open>default:\<close> branch.\<close>

fun datasizeOf :: "MPI_Datatype \<Rightarrow> nat option" where
  "datasizeOf MPI_INT = Some 4"
| "datasizeOf MPI_UNSIGNED_CHAR = Some 1"
| "datasizeOf (MPI_OTHER k) = None"

text \<open>
  \<open>buf\<close> is the caller's memory at \<^verbatim>\<open>buf\<close>, as bytes. \<^verbatim>\<open>count * datasize\<close> is computed in
  \<^verbatim>\<open>Size\<close>; the sum with \<^verbatim>\<open>sizeof(MpiProxy::Header)\<close> in the wider of \<^verbatim>\<open>Size\<close> and
  \<^verbatim>\<open>size_t\<close>. \<^verbatim>\<open>MemoryBlock::copy\<close> of more bytes than the packet has after its header
  writes outside the array. The fields \<^verbatim>\<open>coreId\<close> and \<^verbatim>\<open>coreCount\<close> of the stack
  packet are never assigned.
\<close>

definition send :: "env \<Rightarrow> u8 list \<Rightarrow> int \<Rightarrow> MPI_Datatype \<Rightarrow> int \<Rightarrow> MpiHost \<Rightarrow> outcome \<times> MpiHost" where
  "send e buf count dt dest h =
     (case datasizeOf dt of
        None \<Rightarrow> (Returns MPI_ERR_ARG, h)
      | Some datasize \<Rightarrow>
          (let bytes = wrapSize e (toSize e count * datasize) in
           if wrapWide e (bytes + headerSize e) > maxPacketSize e then (Returns MPI_ERR_ARG, h)
           else
             (case get (m_nodes h) (toSize e dest) of
                None \<Rightarrow> (Returns MPI_ERR_ARG, h)
              | Some node \<Rightarrow>
                  if bytes > payloadCapacity e then (Undefined, h)
                  else
                    (let hdr = (stackHdr e)\<lparr>h_operation := MpiOpSend, h_result := 0,
                                 h_rankId := dest, h_datatype := dt, h_datacount := count\<rparr>;
                         sr = sendPacket e (toSize e dest) (hdr, take bytes buf)
                                (wrapSize e (headerSize e + bytes)) h
                     in if fst sr \<noteq> MPI_SUCCESS then (Returns (fst sr), snd sr)
                        else (Returns MPI_SUCCESS, snd sr)))))"

subsection \<open>receive\<close>

text \<open>
  The inner \<^verbatim>\<open>for\<close> loop of \<^verbatim>\<open>receive\<close>, over the elements of one response packet.
  \<open>area\<close> is the packet buffer after the header, \<open>buf\<close> the caller's memory at \<^verbatim>\<open>buf\<close>
  as bytes, \<open>j\<close> and \<open>i\<close> the two loop variables. The pointer \<^verbatim>\<open>data\<close> is
  \<^verbatim>\<open>((const u8 *)(header + 1)) + j\<close>: byte \<open>j\<close> of the area, for both datatypes. The
  \<^verbatim>\<open>int\<close> assignment copies the four bytes at \<^verbatim>\<open>data\<close> to the four bytes of element
  \<open>i\<close> of an \<^verbatim>\<open>int\<close> array; the \<^verbatim>\<open>u8\<close> assignment copies one byte. The first component
  of the result is \<open>None\<close> when the loop runs to its end, and how the call ends otherwise.
\<close>

function processData ::
  "MPI_Datatype \<Rightarrow> u8 list \<Rightarrow> int \<Rightarrow> nat \<Rightarrow> nat \<Rightarrow> u8 list \<Rightarrow> outcome option \<times> nat \<times> u8 list" where
  "processData dt area datacount j i buf =
     (if int j < datacount then
        (case dt of
           MPI_INT \<Rightarrow>
             if j + 4 \<le> length area \<and> 4 * i + 4 \<le> length buf
             then processData dt area datacount (j + 1) (i + 1)
                    (take (4 * i) buf @ take 4 (drop j area) @ drop (4 * i + 4) buf)
             else (Some Undefined, i, buf)
         | MPI_UNSIGNED_CHAR \<Rightarrow>
             if j < length area \<and> i < length buf
             then processData dt area datacount (j + 1) (i + 1) (buf[i := area ! j])
             else (Some Undefined, i, buf)
         | MPI_OTHER k \<Rightarrow> (Some (Returns MPI_ERR_UNSUPPORTED_DATAREP), i, buf))
      else (None, i, buf))"
  by pat_completeness auto
termination
  by (relation "measure (\<lambda>(dt, area, datacount, j, i, buf). nat datacount - j)") auto

declare processData.simps [simp del]

text \<open>The outer loop \<^verbatim>\<open>for (int i = 0; i < count;)\<close>: one \<^verbatim>\<open>receivePacket\<close> per round.\<close>

function receiveLoop ::
  "env \<Rightarrow> MPI_Datatype \<Rightarrow> int \<Rightarrow> nat \<Rightarrow> u8 list \<Rightarrow> MpiHost \<Rightarrow> outcome \<times> u8 list \<times> MpiHost" where
  "receiveLoop e dt count i buf h =
     (if int i < count then
        (case receivePacket e (recvPacket h) h of
           None \<Rightarrow> (Blocked, buf, h)
         | Some (rr, pkt, h1) \<Rightarrow>
             if rr \<noteq> MPI_SUCCESS then (Returns rr, buf, h1\<lparr>recvPacket := pkt\<rparr>)
             else if h_operation (fst pkt) \<noteq> MpiOpRecv
             then receiveLoop e dt count i buf (h1\<lparr>recvPacket := pkt\<rparr>)
             else
               (case processData dt (snd pkt) (h_datacount (fst pkt)) 0 i buf of
                  (Some out, i', buf') \<Rightarrow> (out, buf', h1\<lparr>recvPacket := pkt\<rparr>)
                | (None, i', buf') \<Rightarrow> receiveLoop e dt count i' buf' (h1\<lparr>recvPacket := pkt\<rparr>)))
      else (Returns MPI_SUCCESS, buf, h))"
  by pat_completeness auto
termination
  by (relation "measure (\<lambda>(e, dt, count, i, buf, h). length (inbox h))")
     (auto simp: receivePacket_def split: list.splits recv_event.splits)

declare receiveLoop.simps [simp del]

text \<open>
  \<^verbatim>\<open>receive\<close>: the request is written into the static packet (its other header fields
  keep what the last datagram left there) and sent with the size of the header; then
  the loop. The result holds the caller's buffer after the call.
\<close>

definition receive ::
  "env \<Rightarrow> u8 list \<Rightarrow> int \<Rightarrow> MPI_Datatype \<Rightarrow> int \<Rightarrow> MpiHost \<Rightarrow> outcome \<times> u8 list \<times> MpiHost" where
  "receive e buf count dt source h =
     (case get (m_nodes h) (toSize e source) of
        None \<Rightarrow> (Returns MPI_ERR_RANK, buf, h)
      | Some node \<Rightarrow>
          (let pkt = ((fst (recvPacket h))\<lparr>h_operation := MpiOpRecv, h_rankId := source,
                        h_datatype := dt, h_datacount := count\<rparr>, snd (recvPacket h));
               sr = sendPacket e (toSize e source) pkt (headerSize e) (h\<lparr>recvPacket := pkt\<rparr>)
           in if fst sr \<noteq> MPI_SUCCESS then (Returns (fst sr), buf, snd sr)
              else receiveLoop e dt count 0 buf (snd sr)))"

subsection \<open>terminate\<close>

text \<open>The loop of \<^verbatim>\<open>terminate\<close> from rank \<open>i\<close> on. Only the operation of the static
  packet is assigned before it is sent; the two \<^verbatim>\<open>continue\<close> branches and the end
  of the body all go to the next rank.\<close>

function terminateLoop :: "env \<Rightarrow> nat \<Rightarrow> MpiHost \<Rightarrow> outcome \<times> MpiHost" where
  "terminateLoop e i h =
     (if i < length (m_nodes h) then
        (let pkt = ((fst (termPacket h))\<lparr>h_operation := MpiOpTerminate\<rparr>, snd (termPacket h));
             sr = sendPacket e i pkt (headerSize e) (h\<lparr>termPacket := pkt\<rparr>)
         in if fst sr \<noteq> MPI_SUCCESS then (Returns (fst sr), snd sr)
            else
              (case receivePacket e pkt (snd sr) of
                 None \<Rightarrow> (Blocked, snd sr)
               | Some (rr, pkt', h1) \<Rightarrow>
                   if rr \<noteq> MPI_SUCCESS then (Returns rr, h1\<lparr>termPacket := pkt'\<rparr>)
                   else if h_operation (fst pkt') \<noteq> MpiOpTerminate
                   then terminateLoop e (i + 1) (h1\<lparr>termPacket := pkt'\<rparr>)
                   else if h_result (fst pkt') \<noteq> 0
                   then terminateLoop e (i + 1) (h1\<lparr>termPacket := pkt'\<rparr>)
                   else terminateLoop e (i + 1) (h1\<lparr>termPacket := pkt'\<rparr>)))
      else (Returns MPI_SUCCESS, h))"
  by pat_completeness auto
termination
  by (relation "measure (\<lambda>(e, i, h). length (m_nodes h) - i)")
     (auto simp: receivePacket_def sendPacket_def Let_def
           split: list.splits recv_event.splits option.splits if_splits)

declare terminateLoop.simps [simp del]

definition terminate :: "env \<Rightarrow> MpiHost \<Rightarrow> outcome \<times> MpiHost" where
  "terminate e h = terminateLoop e 1 h"

subsection \<open>Library functions used by the parser and the launcher\<close>

text \<open>
  Modelled from the spec: \<^verbatim>\<open>String::split\<close> (String.h) is not part of the sources. The
  spec has the hosts text as a sequence of terminated lines and a line as
  colon-separated fields, and has the text \<^verbatim>\<open>"a:b:c\nd:e:f\n"\<close> hold two lines: the
  pieces between the delimiters, in order, without the empty ones. \<open>cur\<close> is the piece
  read so far.
\<close>

fun splitFrom :: "char \<Rightarrow> string \<Rightarrow> string \<Rightarrow> string list" where
  "splitFrom d cur [] = (if cur = [] then [] else [cur])"
| "splitFrom d cur (c # cs) =
     (if c = d then (if cur = [] then [] else [cur]) @ splitFrom d [] cs
      else splitFrom d (cur @ [c]) cs)"

definition String_split :: "string \<Rightarrow> char \<Rightarrow> string list" where
  "String_split s d = splitFrom d [] s"

text \<open>The C library's \<^verbatim>\<open>atoi\<close>: white space, an optional sign, then decimal digits up
  to the first other character. The value is not reduced to the range of \<^verbatim>\<open>int\<close>.\<close>

definition isspace :: "char \<Rightarrow> bool" where
  "isspace c = (c = CHR '' '' \<or> c = CHR 0x09 \<or> c = CHR 0x0A \<or> c = CHR 0x0B \<or> c = CHR 0x0C
                \<or> c = CHR 0x0D)"

definition isdigit :: "char \<Rightarrow> bool" where
  "isdigit c = (48 \<le> (of_char c :: nat) \<and> (of_char c :: nat) \<le> 57)"

fun digitsValue :: "int \<Rightarrow> string \<Rightarrow> int" where
  "digitsValue acc [] = acc"
| "digitsValue acc (c # cs) =
     (if isdigit c then digitsValue (10 * acc + (of_char c - 48)) cs else acc)"

definition atoi :: "string \<Rightarrow> int" where
  "atoi s =
     (case dropWhile isspace s of
        [] \<Rightarrow> 0
      | c # cs \<Rightarrow>
          if c = CHR ''-'' then - digitsValue 0 cs
          else if c = CHR ''+'' then digitsValue 0 cs
          else digitsValue 0 (c # cs))"

text \<open>
  The C library's \<^verbatim>\<open>inet_addr\<close>, as the GNU C library's \<^verbatim>\<open>inet_aton\<close> reads a text: up to
  four numbers separated by dots, with no white space before them. Each number is read as
  \<^verbatim>\<open>strtoul\<close> with base 0 reads it: \<^verbatim>\<open>0x\<close> or \<^verbatim>\<open>0X\<close> before a hexadecimal digit starts a
  hexadecimal number, another leading \<^verbatim>\<open>0\<close> an octal one, every other digit a decimal one.
  A number before a dot is at most 255 and there are at most three of them; the last
  number fills the bytes that remain (\<^verbatim>\<open>a.b.c.d\<close>, \<^verbatim>\<open>a.b.c\<close>, \<^verbatim>\<open>a.b\<close>, \<^verbatim>\<open>a\<close>). After
  the last number the text ends or white space follows. Every other text gives
  \<^verbatim>\<open>INADDR_NONE\<close>, all bits set. The address is given as the number whose big-endian
  bytes are the bytes on the wire: \<^verbatim>\<open>10.0.0.2\<close> is \<open>0x0A000002\<close>.
\<close>

definition isodigit :: "char \<Rightarrow> bool" where
  "isodigit c = (48 \<le> (of_char c :: nat) \<and> (of_char c :: nat) \<le> 55)"

definition isxdigit :: "char \<Rightarrow> bool" where
  "isxdigit c = (isdigit c \<or> (65 \<le> (of_char c :: nat) \<and> (of_char c :: nat) \<le> 70)
                 \<or> (97 \<le> (of_char c :: nat) \<and> (of_char c :: nat) \<le> 102))"

definition digitOf :: "char \<Rightarrow> nat" where
  "digitOf c =
     (if isdigit c then of_char c - 48
      else if 97 \<le> (of_char c :: nat) then of_char c - 87
      else of_char c - 55)"

fun baseValue :: "nat \<Rightarrow> nat \<Rightarrow> string \<Rightarrow> nat" where
  "baseValue b acc [] = acc"
| "baseValue b acc (c # cs) = baseValue b (b * acc + digitOf c) cs"

text \<open>\<^verbatim>\<open>strtoul\<close> with base 0 on a text that starts with a digit: the value read and the
  text behind it.\<close>

definition strtoul0 :: "string \<Rightarrow> nat \<times> string" where
  "strtoul0 s =
     (case s of
        [] \<Rightarrow> (0, [])
      | c # cs \<Rightarrow>
          if c = CHR ''0'' then
            (case cs of
               x # h # t \<Rightarrow>
                 if (x = CHR ''x'' \<or> x = CHR ''X'') \<and> isxdigit h
                 then (baseValue 16 0 (takeWhile isxdigit (h # t)), dropWhile isxdigit (h # t))
                 else (baseValue 8 0 (takeWhile isodigit cs), dropWhile isodigit cs)
             | _ \<Rightarrow> (baseValue 8 0 (takeWhile isodigit cs), dropWhile isodigit cs))
          else (baseValue 10 0 (takeWhile isdigit s), dropWhile isdigit s))"

text \<open>The numbers before the last one, as the leading bytes of the address.\<close>

fun partsValue :: "nat \<Rightarrow> nat list \<Rightarrow> nat" where
  "partsValue sh [] = 0"
| "partsValue sh (p # ps) = p * 2 ^ sh + partsValue (sh - 8) ps"

definition lastPart :: "nat list \<Rightarrow> nat \<Rightarrow> nat option" where
  "lastPart parts val =
     (if 2 ^ (8 * (4 - length parts)) \<le> val then None else Some (partsValue 24 parts + val))"

text \<open>The loop of \<^verbatim>\<open>inet_aton\<close>: \<open>k\<close> is the number of parts that may still be stored
  before a dot, \<open>parts\<close> the parts stored.\<close>

fun inet_aton_from :: "nat \<Rightarrow> nat list \<Rightarrow> string \<Rightarrow> nat option" where
  "inet_aton_from k parts [] = None"
| "inet_aton_from k parts (c # cs) =
     (if \<not> isdigit c then None
      else
        (case strtoul0 (c # cs) of
           (val, []) \<Rightarrow> lastPart parts val
         | (val, d # rest) \<Rightarrow>
             if d = CHR ''.'' then
               (case k of
                  0 \<Rightarrow> None
                | Suc k' \<Rightarrow>
                    if 255 < val then None else inet_aton_from k' (parts @ [val]) rest)
             else if isspace d then lastPart parts val
             else None))"

definition inet_addr :: "string \<Rightarrow> 32 word" where
  "inet_addr s = (case inet_aton_from 3 [] s of None \<Rightarrow> - 1 | Some v \<Rightarrow> word_of_nat v)"

text \<open>The C library's \<^verbatim>\<open>basename\<close> of \<^verbatim>\<open>libgen.h\<close>: the last component of the path,
  trailing slashes ignored; \<^verbatim>\<open>"."\<close> for the empty path, \<^verbatim>\<open>"/"\<close> for a path of slashes.\<close>

definition basename :: "string \<Rightarrow> string" where
  "basename path =
     (if path = [] then ''.''
      else (let p = rev (dropWhile (\<lambda>c. c = CHR ''/'') (rev path))
            in if p = [] then ''/'' else rev (takeWhile (\<lambda>c. c \<noteq> CHR ''/'') (rev p))))"

subsection \<open>parseHostsFile\<close>

text \<open>The loop over the lines. A line that does not split into three fields ends the
  call before a node is allocated for it.\<close>

fun parseLines :: "env \<Rightarrow> string list \<Rightarrow> MpiHost \<Rightarrow> Result \<times> MpiHost" where
  "parseLines e [] h = (MPI_SUCCESS, h)"
| "parseLines e (line # rest) h =
     (let nodeLine = String_split line (CHR '':'') in
      if length nodeLine \<noteq> 3 then (MPI_ERR_ARG, h)
      else
        (case alloc e h of
           None \<Rightarrow> (MPI_ERR_NO_MEM, h)
         | Some h1 \<Rightarrow>
             (case insert_node e
                     \<lparr>ipAddress = inet_addr (nodeLine ! 0),
                      udpPort = word_of_int (atoi (nodeLine ! 1)),
                      coreId = word_of_int (atoi (nodeLine ! 2))\<rparr> h1 of
                None \<Rightarrow> (MPI_ERR_IO, h1)
              | Some h2 \<Rightarrow> parseLines e rest h2)))"

text \<open>
  \<^verbatim>\<open>parseHostsFile\<close>: \<^verbatim>\<open>stat\<close>, \<^verbatim>\<open>fopen\<close>, the allocation of the buffer, \<^verbatim>\<open>fread\<close> of one
  item of \<^verbatim>\<open>st_size\<close> bytes (which returns 0 for an empty file), then the text up to its
  first NUL byte split into lines.
\<close>

definition parseHostsFile :: "env \<Rightarrow> string \<Rightarrow> MpiHost \<Rightarrow> Result \<times> MpiHost" where
  "parseHostsFile e hostsfile h =
     (case hostsFiles e hostsfile of
        StatFails \<Rightarrow> (MPI_ERR_IO, h)
      | FopenFails \<Rightarrow> (MPI_ERR_IO, h)
      | FreadFails \<Rightarrow>
          (case alloc e h of None \<Rightarrow> (MPI_ERR_NO_MEM, h) | Some h1 \<Rightarrow> (MPI_ERR_IO, h1))
      | Contents contents \<Rightarrow>
          (case alloc e h of
             None \<Rightarrow> (MPI_ERR_NO_MEM, h)
           | Some h1 \<Rightarrow>
               if contents = [] then (MPI_ERR_IO, h1)
               else parseLines e
                      (String_split (takeWhile (\<lambda>c. c \<noteq> CHR 0x00) contents) (CHR 0x0A)) h1))"

subsection \<open>startProcesses\<close>

text \<open>The command line: \<^verbatim>\<open>basename(argv[0])\<close>, a space when there are more arguments,
  then the arguments with a space after each but the last. \<^verbatim>\<open>argc\<close> is the length of
  \<open>argv\<close>; with no argument at all \<^verbatim>\<open>argv[0]\<close> is the null pointer that ends the
  vector, for which \<^verbatim>\<open>basename\<close> answers \<^verbatim>\<open>"."\<close>.\<close>

fun appendArgs :: "string list \<Rightarrow> string" where
  "appendArgs [] = []"
| "appendArgs [a] = a"
| "appendArgs (a # b # rest) = a @ '' '' @ appendArgs (b # rest)"

definition buildCmdline :: "string list \<Rightarrow> string" where
  "buildCmdline argv =
     (case argv of
        [] \<Rightarrow> ''.''
      | a0 # rest \<Rightarrow> basename a0 @ (if rest \<noteq> [] then '' '' else []) @ appendArgs rest)"

text \<open>
  The loop over the ranks from \<open>i\<close> on. \<^verbatim>\<open>MemoryBlock::copy\<close> fills the whole payload area
  of the stack packet from the string, so the area starts with the command line, cut to
  the capacity; \<^verbatim>\<open>sendPacket\<close> is given the size of the header plus the length of the
  whole command line. The fields \<^verbatim>\<open>datatype\<close> and \<^verbatim>\<open>datacount\<close> are never assigned.
\<close>

function startLoop :: "env \<Rightarrow> string \<Rightarrow> nat \<Rightarrow> MpiHost \<Rightarrow> Result \<times> MpiHost" where
  "startLoop e cmdline i h =
     (if i < length (m_nodes h) then
        (let hdr = (stackHdr e)\<lparr>h_operation := MpiOpExec, h_result := 0, h_rankId := int i,
                     h_coreId := uint (coreId (m_nodes h ! i)),
                     h_coreCount := int (length (m_nodes h))\<rparr>;
             sr = sendPacket e i (hdr, take (payloadCapacity e) (map of_char cmdline))
                    (wrapSize e (headerSize e + length cmdline)) h
         in if fst sr \<noteq> MPI_SUCCESS then (fst sr, snd sr)
            else startLoop e cmdline (i + 1) (snd sr))
      else (MPI_SUCCESS, h))"
  by pat_completeness auto
termination
  by (relation "measure (\<lambda>(e, cmdline, i, h). length (m_nodes h) - i)")
     (auto simp: sendPacket_def Let_def split: option.splits if_splits)

declare startLoop.simps [simp del]

definition startProcesses :: "env \<Rightarrow> string list \<Rightarrow> MpiHost \<Rightarrow> Result \<times> MpiHost" where
  "startProcesses e argv h = startLoop e (buildCmdline argv) 1 h"

subsection \<open>initialize\<close>

text \<open>
  \<open>argv\<close> is the argument vector and \<^verbatim>\<open>argc\<close> its length; the result holds the vector
  the caller is left with. The master node is allocated and written without a check of
  the pointer. A new \<^verbatim>\<open>MpiHost\<close> has no node.
\<close>

definition master :: Node where
  "master = \<lparr>ipAddress = 0, udpPort = 0, coreId = 0\<rparr>"

definition initialize :: "env \<Rightarrow> string list \<Rightarrow> MpiHost \<Rightarrow> outcome \<times> string list \<times> MpiHost" where
  "initialize e argv h =
     (if length argv < 2 then (Returns MPI_ERR_ARG, argv, h)
      else
        (case alloc e h of
           None \<Rightarrow> (Undefined, argv, h)
         | Some h1 \<Rightarrow>
             (case insert_node e master h1 of
                None \<Rightarrow> (Returns MPI_ERR_IO, argv, h1)
              | Some h2 \<Rightarrow>
                  (let pr = parseHostsFile e (argv ! 1) h2 in
                   if fst pr \<noteq> MPI_SUCCESS then (Returns (fst pr), argv, snd pr)
                   else
                     (let argv' = hd argv # drop 2 argv;
                          h3 = (snd pr)\<lparr>m_sock := socketRc e\<rparr>
                      in if socketRc e < 0 then (Returns MPI_ERR_IO, argv', h3)
                         else if bindRc e < 0 then (Returns MPI_ERR_IO, argv', h3)
                         else (let st = startProcesses e argv' h3
                               in (Returns (fst st), argv', snd st)))))))"

subsection \<open>Hosts texts\<close>

text \<open>
  A hosts text given by the three fields of each of its lines: one line
  \<^verbatim>\<open>ip:port:core\<close> for each triple, each line closed by a newline. A field can stand in
  such a line when it is not empty and holds no colon, no newline and no NUL byte.
\<close>

definition fieldOk :: "string \<Rightarrow> bool" where
  "fieldOk f = (f \<noteq> [] \<and> CHR '':'' \<notin> set f \<and> CHR 0x0A \<notin> set f \<and> CHR 0x00 \<notin> set f)"

definition lineOk :: "string \<times> string \<times> string \<Rightarrow> bool" where
  "lineOk l = (fieldOk (fst l) \<and> fieldOk (fst (snd l)) \<and> fieldOk (snd (snd l)))"

definition hostsLine :: "string \<times> string \<times> string \<Rightarrow> string" where
  "hostsLine l = fst l @ '':'' @ fst (snd l) @ '':'' @ snd (snd l)"

definition hostsText :: "(string \<times> string \<times> string) list \<Rightarrow> string" where
  "hostsText ls = concat (map (\<lambda>l. hostsLine l @ [CHR 0x0A]) ls)"

text \<open>The node that \<^verbatim>\<open>parseHostsFile\<close> builds from the three fields of a line.\<close>

definition nodeOf :: "string \<times> string \<times> string \<Rightarrow> Node" where
  "nodeOf l = \<lparr>ipAddress = inet_addr (fst l),
               udpPort = word_of_int (atoi (fst (snd l))),
               coreId = word_of_int (atoi (snd (snd l)))\<rparr>"

definition lineNode :: "string \<Rightarrow> Node" where
  "lineNode line =
     \<lparr>ipAddress = inet_addr (String_split line (CHR '':'') ! 0),
      udpPort = word_of_int (atoi (String_split line (CHR '':'') ! 1)),
      coreId = word_of_int (atoi (String_split line (CHR '':'') ! 2))\<rparr>"

text \<open>
  The hosts text the specification calls well-formed: each line names a node by the four
  numbers of its dotted address, its port and its core, all written in decimal.
  \<open>decimal n\<close> is the decimal numeral of \<open>n\<close>. The numbers of an address are at most
  255; port and core are in the range of \<^verbatim>\<open>int\<close>, where \<^verbatim>\<open>atoi\<close> is defined.
  \<open>entryNode\<close> is the node such a line names.
\<close>

fun decimal :: "nat \<Rightarrow> string" where
  "decimal n =
     (if n < 10 then [char_of (48 + n)] else decimal (n div 10) @ [char_of (48 + n mod 10)])"

declare decimal.simps [simp del]

datatype hostEntry = HostEntry nat nat nat nat nat nat

fun entryOk :: "hostEntry \<Rightarrow> bool" where
  "entryOk (HostEntry a b c d port core) =
     (a \<le> 255 \<and> b \<le> 255 \<and> c \<le> 255 \<and> d \<le> 255 \<and> port < 2 ^ 31 \<and> core < 2 ^ 31)"

fun entryFields :: "hostEntry \<Rightarrow> string \<times> string \<times> string" where
  "entryFields (HostEntry a b c d port core) =
     (decimal a @ ''.'' @ decimal b @ ''.'' @ decimal c @ ''.'' @ decimal d,
      decimal port, decimal core)"

fun entryLine :: "hostEntry \<Rightarrow> string" where
  "entryLine (HostEntry a b c d port core) =
     decimal a @ ''.'' @ decimal b @ ''.'' @ decimal c @ ''.'' @ decimal d
     @ '':'' @ decimal port @ '':'' @ decimal core"

definition entriesText :: "hostEntry list \<Rightarrow> string" where
  "entriesText es = concat (map (\<lambda>x. entryLine x @ [CHR 0x0A]) es)"

fun entryNode :: "hostEntry \<Rightarrow> Node" where
  "entryNode (HostEntry a b c d port core) =
     \<lparr>ipAddress = word_of_nat (((a * 256 + b) * 256 + c) * 256 + d),
      udpPort = word_of_nat port, coreId = word_of_nat core\<rparr>"

text \<open>A line that splits into exactly three colon-separated fields.\<close>

definition threeFields :: "string \<Rightarrow> bool" where
  "threeFields line = (length (String_split line (CHR '':'')) = 3)"

subsection \<open>Datagrams that the loops pass over\<close>

text \<open>A datagram that the loop of \<^verbatim>\<open>receive\<close> takes from the socket without copying an
  element: its operation is not \<^verbatim>\<open>MpiOpRecv\<close>, or it announces no element.\<close>

fun passedOver :: "recv_event \<Rightarrow> bool" where
  "passedOver RecvError = False"
| "passedOver (Datagram dh dp) = (h_operation dh \<noteq> MpiOpRecv \<or> h_datacount dh \<le> 0)"

text \<open>
  A peer that answers a \<^verbatim>\<open>receive\<close> for bytes: every datagram it sends is either not a
  response, or a response whose \<^verbatim>\<open>datacount\<close> is the length of its payload, which fits
  into a packet. \<open>elements\<close> are the elements a datagram carries for the request.
\<close>

fun answers :: "env \<Rightarrow> recv_event \<Rightarrow> bool" where
  "answers e RecvError = False"
| "answers e (Datagram dh dp) =
     (h_operation dh \<noteq> MpiOpRecv
      \<or> (h_datacount dh = int (length dp) \<and> length dp \<le> payloadCapacity e))"

fun elements :: "recv_event \<Rightarrow> u8 list" where
  "elements RecvError = []"
| "elements (Datagram dh dp) = (if h_operation dh = MpiOpRecv then dp else [])"

text \<open>Whether \<^verbatim>\<open>recvfrom\<close> delivers a datagram.\<close>

fun isDatagram :: "recv_event \<Rightarrow> bool" where
  "isDatagram RecvError = False"
| "isDatagram (Datagram dh dp) = True"

text \<open>What a \<^verbatim>\<open>sendto\<close> call shows on the wire besides the stale header fields: the
  node, the operation, the payload bytes and the size.\<close>

definition wireView :: "sendto_call \<Rightarrow> Node \<times> Operation \<times> u8 list \<times> nat" where
  "wireView c = (s_dest c, h_operation (s_hdr c), s_payload c, s_size c)"

text \<open>The launch packet of \<^verbatim>\<open>startProcesses\<close> for rank \<open>i\<close>.\<close>

definition execCall :: "env \<Rightarrow> string \<Rightarrow> Node list \<Rightarrow> nat \<Rightarrow> sendto_call" where
  "execCall e cmdline nodes i =
     \<lparr>s_dest = nodes ! i,
      s_hdr = (stackHdr e)\<lparr>h_operation := MpiOpExec, h_result := 0, h_rankId := int i,
                h_coreId := uint (coreId (nodes ! i)), h_coreCount := int (length nodes)\<rparr>,
      s_payload = map of_char cmdline,
      s_size = headerSize e + length cmdline\<rparr>"

subsection \<open>A concrete platform\<close>

text \<open>
  A platform and a host to run the functions on: a header of 16 bytes, packets of 64
  bytes, a 32-bit \<^verbatim>\<open>Size\<close> and a 64-bit \<^verbatim>\<open>size_t\<close>, room for 8 nodes; every
  \<^verbatim>\<open>sendto\<close> succeeds; the file \<^verbatim>\<open>hosts\<close> holds two lines.
\<close>

definition zeroHdr :: Header where
  "zeroHdr = \<lparr>h_operation = MpiOpSend, h_result = 0, h_rankId = 0, h_datatype = MPI_INT,
              h_datacount = 0, h_coreId = 0, h_coreCount = 0\<rparr>"

definition twoHosts :: string where
  "twoHosts = ''10.0.0.2:9000:0'' @ [CHR 0x0A] @ ''10.0.0.3:9000:1'' @ [CHR 0x0A]"

definition pc :: env where
  "pc = \<lparr>headerSize = 16, maxPacketSize = 64, sizeBits = 32, sizetBits = 64, maxNodes = 8,
         heapLimit = 16,
         hostsFiles = (\<lambda>p. if p = ''hosts'' then Contents twoHosts else StatFails),
         socketRc = 3, bindRc = 0, sendtoRc = (\<lambda>k. 16), stackHdr = zeroHdr\<rparr>"

definition brokenHosts :: string where
  "brokenHosts = ''10.0.0.2:9000:0'' @ [CHR 0x0A] @ ''10.0.0.3:9000'' @ [CHR 0x0A]
                 @ ''10.0.0.4:9000:2'' @ [CHR 0x0A]"

definition newHost :: MpiHost where
  "newHost = \<lparr>m_nodes = [], m_sock = 0, recvPacket = (zeroHdr, replicate 48 0),
              termPacket = (zeroHdr, replicate 48 0), allocs = 0, sent = [], inbox = []\<rparr>"

definition node1 :: Node where
  "node1 = \<lparr>ipAddress = 167772162, udpPort = 9000, coreId = 0\<rparr>"

definition node2 :: Node where
  "node2 = \<lparr>ipAddress = 167772163, udpPort = 9000, coreId = 1\<rparr>"

definition node3 :: Node where
  "node3 = \<lparr>ipAddress = 167772164, udpPort = 9000, coreId = 2\<rparr>"

text \<open>A host with the master and two nodes, and one with the master and three.\<close>

definition host3 :: MpiHost where
  "host3 = newHost\<lparr>m_nodes := [master, node1, node2]\<rparr>"

definition host4 :: MpiHost where
  "host4 = newHost\<lparr>m_nodes := [master, node1, node2, node3]\<rparr>"


section \<open>Properties\<close>

subsection \<open>Conversions to \<^verbatim>\<open>Size\<close> and lookups\<close>

lemma pow32_le: "32 \<le> n \<Longrightarrow> (2::int) ^ 32 \<le> 2 ^ n"
  by (rule power_increasing) simp_all

lemma toSize_nonneg:
  assumes "0 \<le> r" "r < 2 ^ 31" "32 \<le> sizeBits e"
  shows "toSize e r = nat r"
proof -
  have "(2::int) ^ 32 \<le> 2 ^ sizeBits e" using assms(3) by (rule pow32_le)
  then have "r < 2 ^ sizeBits e" using assms(2) by simp
  then show ?thesis using assms(1) by (simp add: toSize_def)
qed

lemma toSize_neg:
  assumes "r < 0" "- (2 ^ 31) \<le> r" "32 \<le> sizeBits e"
  shows "2 ^ 31 \<le> toSize e r"
proof -
  have p: "(2::int) ^ 32 \<le> 2 ^ sizeBits e" using assms(3) by (rule pow32_le)
  have "(r + 2 ^ sizeBits e) mod 2 ^ sizeBits e = r + 2 ^ sizeBits e"
    using assms p by (intro mod_pos_pos_trivial) auto
  then have "r mod 2 ^ sizeBits e = r + 2 ^ sizeBits e" by simp
  then have "(2::int) ^ 31 \<le> r mod 2 ^ sizeBits e" using assms p by simp
  then have "nat (2 ^ 31) \<le> toSize e r" unfolding toSize_def by (rule nat_mono)
  then show ?thesis by simp
qed

text \<open>A rank outside the registry, as an \<^verbatim>\<open>int\<close> of 32 bits, is not found by \<open>get\<close>.\<close>

lemma get_outside:
  assumes "- (2 ^ 31) \<le> r" "r < 2 ^ 31" "32 \<le> sizeBits e" "length nodes < 2 ^ 31"
    and "r < 0 \<or> int (length nodes) \<le> r"
  shows "get nodes (toSize e r) = None"
proof (cases "r < 0")
  case True
  then have "2 ^ 31 \<le> toSize e r" using assms by (intro toSize_neg) auto
  then show ?thesis using assms(4) by (simp add: get_def)
next
  case False
  then have "toSize e r = nat r" using assms by (intro toSize_nonneg) auto
  then show ?thesis using assms(5) False by (simp add: get_def)
qed

lemma wrapWide_small:
  assumes "n < 2 ^ sizeBits e"
  shows "wrapWide e n = n"
proof -
  have "(2::nat) ^ sizeBits e \<le> 2 ^ max (sizeBits e) (sizetBits e)"
    by (rule power_increasing) simp_all
  with assms have "n < 2 ^ max (sizeBits e) (sizetBits e)" by (rule order_less_le_trans)
  then show ?thesis by (simp add: wrapWide_def)
qed

lemma wrapSize_small: "n < 2 ^ sizeBits e \<Longrightarrow> wrapSize e n = n"
  by (simp add: wrapSize_def)

lemma toSize_small:
  assumes "0 \<le> n" "n < 2 ^ sizeBits e"
  shows "toSize e n = nat n"
  using assms by (simp add: toSize_def)

subsection \<open>getCommRank\<close>

text \<open>
  Claim C10. For every communicator, \<^verbatim>\<open>getCommRank\<close> writes 0 into the output rank and
  returns success, whatever the registry holds.
\<close>

theorem getCommRank_zero: "getCommRank comm h = (MPI_SUCCESS, 0)"
  by (simp add: getCommRank_def)

subsection \<open>A rank outside the registry\<close>

text \<open>
  Claim C2 says that \<^verbatim>\<open>send\<close> and \<^verbatim>\<open>receive\<close> to a rank outside \<open>[0, count())\<close> both fail
  with \<^verbatim>\<open>MPI_ERR_RANK\<close> and make no transport call. \<^verbatim>\<open>receive\<close> does
  (\<open>receive_rank_outside_registry\<close> below). \<^verbatim>\<open>send\<close> makes no transport call either, but
  the code it returns for every such rank, whatever the other arguments, is
  \<^verbatim>\<open>MPI_ERR_ARG\<close>.
\<close>

theorem send_rank_outside_registry:
  assumes "- (2 ^ 31) \<le> r" and "r < 2 ^ 31" and "32 \<le> sizeBits e"
    and "length (m_nodes h) < 2 ^ 31"
    and "r < 0 \<or> int (length (m_nodes h)) \<le> r"
  shows "send e buf count dt r h = (Returns MPI_ERR_ARG, h)"
proof -
  have "get (m_nodes h) (toSize e r) = None"
    using assms by (rule get_outside)
  then show ?thesis
    by (simp add: send_def Let_def split: option.splits)
qed

theorem send_rank_outside_registry_witness:
  "send pc [1, 0, 0, 0] 1 MPI_INT 5 host3 = (Returns MPI_ERR_ARG, host3)
   \<and> send pc [1, 0, 0, 0] 1 MPI_INT 5 host3 \<noteq> (Returns MPI_ERR_RANK, host3)"
  using send_rank_outside_registry [of 5 pc host3 "[1, 0, 0, 0]" 1 MPI_INT]
  by (simp add: pc_def host3_def newHost_def)

text \<open>\<^verbatim>\<open>receive\<close> to a rank outside the registry: \<^verbatim>\<open>MPI_ERR_RANK\<close>, the buffer and the
  state (the log of \<^verbatim>\<open>sendto\<close> calls and the inbox with it) unchanged.\<close>

lemma receive_rank_outside_registry:
  assumes "- (2 ^ 31) \<le> r" and "r < 2 ^ 31" and "32 \<le> sizeBits e"
    and "length (m_nodes h) < 2 ^ 31"
    and "r < 0 \<or> int (length (m_nodes h)) \<le> r"
  shows "receive e buf count dt r h = (Returns MPI_ERR_RANK, buf, h)"
proof -
  have "get (m_nodes h) (toSize e r) = None"
    using assms by (rule get_outside)
  then show ?thesis
    by (simp add: receive_def)
qed

subsection \<open>The size check of send\<close>

text \<open>Where \<^verbatim>\<open>count * datasize + sizeof(Header)\<close> does not wrap around, the size check
  is the comparison of the numbers: too large a payload is refused with
  \<^verbatim>\<open>MPI_ERR_ARG\<close> and the state is unchanged.\<close>

lemma send_size_check:
  assumes "datasizeOf dt = Some w" and "0 \<le> n"
    and "nat n * w + headerSize e < 2 ^ sizeBits e"
    and "maxPacketSize e < nat n * w + headerSize e"
  shows "send e buf n dt dest h = (Returns MPI_ERR_ARG, h)"
proof -
  have w: "0 < w" using assms(1) by (cases dt) auto
  have n: "nat n < 2 ^ sizeBits e"
  proof -
    have "nat n \<le> nat n * w" using w by simp
    then show ?thesis using assms(3) by linarith
  qed
  then have "n < 2 ^ sizeBits e" using assms(2)
    by (metis nat_less_iff of_nat_numeral of_nat_power)
  then have 1: "toSize e n = nat n" using assms(2) by (simp add: toSize_small)
  have 2: "wrapSize e (nat n * w) = nat n * w" using assms(3) by (simp add: wrapSize_small)
  have 3: "wrapWide e (nat n * w + headerSize e) = nat n * w + headerSize e"
    using assms(3) by (rule wrapWide_small)
  show ?thesis using assms(1,4) by (simp add: send_def 1 2 3)
qed

text \<open>A call whose byte count is 0 in \<^verbatim>\<open>Size\<close> passes the size check and sends a bare
  header.\<close>

lemma send_no_bytes:
  assumes "datasizeOf dt = Some w" and "wrapSize e (toSize e n * w) = 0"
    and "headerSize e \<le> maxPacketSize e" and "headerSize e < 2 ^ sizeBits e"
    and "get (m_nodes h) (toSize e dest) = Some node"
  shows "send e buf n dt dest h =
           (Returns (if sendtoRc e (length (sent h)) \<le> 0 then MPI_ERR_IO else MPI_SUCCESS),
            h\<lparr>sent := sent h @
                 [\<lparr>s_dest = node,
                   s_hdr = (stackHdr e)\<lparr>h_operation := MpiOpSend, h_result := 0,
                             h_rankId := dest, h_datatype := dt, h_datacount := n\<rparr>,
                   s_payload = [], s_size = headerSize e\<rparr>]\<rparr>)"
proof -
  have 3: "wrapWide e (headerSize e) = headerSize e" using assms(4) by (rule wrapWide_small)
  have 4: "wrapSize e (headerSize e) = headerSize e" using assms(4) by (rule wrapSize_small)
  show ?thesis using assms(1,2,3,5)
    by (simp add: send_def 3 4 sendPacket_def Let_def)
qed

text \<open>
  Claim C3 says that \<^verbatim>\<open>send\<close> fails with \<^verbatim>\<open>MPI_ERR_ARG\<close>, without a transport call, for
  every element count \<open>n\<close> with \<open>n * width + headerSize > MaximumPacketSize\<close>. With a
  \<^verbatim>\<open>Size\<close> of 32 bits the product \<open>2^30 * 4\<close> is 0: for \<open>2^30\<close> integers the sum exceeds
  the maximum, the call passes the check, and \<^verbatim>\<open>sendto\<close> is called with a bare header
  that announces \<open>2^30\<close> elements.
\<close>

theorem send_count_wraps:
  assumes "sizeBits e = 32" and "headerSize e \<le> maxPacketSize e" and "maxPacketSize e < 2 ^ 32"
    and "get (m_nodes h) (toSize e dest) = Some node"
  shows "maxPacketSize e < 2 ^ 30 * 4 + headerSize e
         \<and> fst (send e buf (2 ^ 30) MPI_INT dest h) \<noteq> Returns MPI_ERR_ARG
         \<and> sent (snd (send e buf (2 ^ 30) MPI_INT dest h)) =
             sent h @ [\<lparr>s_dest = node,
                         s_hdr = (stackHdr e)\<lparr>h_operation := MpiOpSend, h_result := 0,
                                   h_rankId := dest, h_datatype := MPI_INT,
                                   h_datacount := 2 ^ 30\<rparr>,
                         s_payload = [], s_size = headerSize e\<rparr>]"
proof -
  have "toSize e (2 ^ 30) = 2 ^ 30" using assms(1) by (simp add: toSize_def)
  then have 2: "wrapSize e (toSize e (2 ^ 30) * 4) = 0" using assms(1) by (simp add: wrapSize_def)
  have 3: "headerSize e < 2 ^ sizeBits e" using assms(1,2,3) by simp
  have "datasizeOf MPI_INT = Some 4" by simp
  from send_no_bytes [OF this 2 assms(2) 3 assms(4), of buf] assms(3)
  show ?thesis by simp
qed

theorem send_count_wraps_witness:
  "fst (send pc [] (2 ^ 30) MPI_INT 1 host3) = Returns MPI_SUCCESS
   \<and> length (sent (snd (send pc [] (2 ^ 30) MPI_INT 1 host3))) = 1"
  using send_count_wraps [of pc host3 1 node1 "[]"]
  by (simp add: pc_def host3_def newHost_def get_def toSize_def send_def wrapSize_def wrapWide_def
      sendPacket_def Let_def payloadCapacity_def)

text \<open>Five integers are 20 bytes: the call passes the size check exactly when the
  maximum is at least the header size plus 20.\<close>

lemma send_five_integers_refused:
  assumes "32 \<le> sizeBits e" and "20 + headerSize e < 2 ^ sizeBits e"
    and "maxPacketSize e < headerSize e + 20"
  shows "send e buf 5 MPI_INT dest h = (Returns MPI_ERR_ARG, h)"
  using send_size_check [of MPI_INT 4 5 e buf dest h] assms by simp

lemma send_five_integers_accepted:
  assumes "32 \<le> sizeBits e" and "20 + headerSize e < 2 ^ sizeBits e"
    and "headerSize e + 20 \<le> maxPacketSize e"
    and "get (m_nodes h) (toSize e dest) = Some node"
  shows "fst (send e buf 5 MPI_INT dest h) \<noteq> Returns MPI_ERR_ARG"
proof -
  have "(5::int) < 2 ^ sizeBits e"
    using pow32_le [OF assms(1)] by simp
  then have 1: "toSize e 5 = 5" by (simp add: toSize_def)
  have 2: "wrapSize e 20 = 20" using assms(2) by (simp add: wrapSize_small)
  have 3: "wrapWide e (20 + headerSize e) = 20 + headerSize e"
    using assms(2) by (rule wrapWide_small)
  show ?thesis using assms(3,4)
    by (simp add: send_def 1 2 3 sendPacket_def Let_def payloadCapacity_def)
qed

subsection \<open>terminate\<close>

text \<open>One round of the loop, and the loop after its last round.\<close>

lemma terminateLoop_done:
  "\<not> i < length (m_nodes h) \<Longrightarrow> terminateLoop e i h = (Returns MPI_SUCCESS, h)"
  by (subst terminateLoop.simps) simp

lemma terminateLoop_step:
  assumes "i < length (m_nodes h)" and "0 < sendtoRc e (length (sent h))"
    and "inbox h = Datagram dh dp # rest"
  shows "terminateLoop e i h =
           terminateLoop e (i + 1)
             (h\<lparr>sent := sent h @
                  [\<lparr>s_dest = m_nodes h ! i,
                    s_hdr = (fst (termPacket h))\<lparr>h_operation := MpiOpTerminate\<rparr>,
                    s_payload = [], s_size = headerSize e\<rparr>],
                inbox := rest,
                termPacket :=
                  (dh, take (payloadCapacity e) (dp @ drop (length dp) (snd (termPacket h))))\<rparr>)"
  using assms
  by (subst terminateLoop.simps) (simp add: sendPacket_def get_def receivePacket_def Let_def)

lemma terminateLoop_sweep:
  assumes "n = length (m_nodes h) - i"
    and "\<forall>k<n. 0 < sendtoRc e (length (sent h) + k)"
    and "n \<le> length (inbox h)"
    and "list_all isDatagram (take n (inbox h))"
  shows "fst (terminateLoop e i h) = Returns MPI_SUCCESS
       \<and> m_nodes (snd (terminateLoop e i h)) = m_nodes h
       \<and> inbox (snd (terminateLoop e i h)) = drop n (inbox h)
       \<and> map wireView (sent (snd (terminateLoop e i h))) =
           map wireView (sent h) @
           map (\<lambda>node. (node, MpiOpTerminate, [], headerSize e)) (drop i (m_nodes h))"
  using assms
proof (induction n arbitrary: i h)
  case 0
  then have "\<not> i < length (m_nodes h)" by simp
  then show ?case by (simp add: terminateLoop_done)
next
  case (Suc n)
  from Suc.prems(1) have i: "i < length (m_nodes h)" by simp
  from Suc.prems(2) have s0: "0 < sendtoRc e (length (sent h))" by force
  from Suc.prems(3) obtain ev rest where inb: "inbox h = ev # rest"
    by (cases "inbox h") auto
  with Suc.prems(4) obtain dh dp where ev: "ev = Datagram dh dp"
    by (cases ev) auto
  define h' where "h' = h\<lparr>sent := sent h @
                  [\<lparr>s_dest = m_nodes h ! i,
                    s_hdr = (fst (termPacket h))\<lparr>h_operation := MpiOpTerminate\<rparr>,
                    s_payload = [], s_size = headerSize e\<rparr>],
                inbox := rest,
                termPacket :=
                  (dh, take (payloadCapacity e) (dp @ drop (length dp) (snd (termPacket h))))\<rparr>"
  have step: "terminateLoop e i h = terminateLoop e (i + 1) h'"
    unfolding h'_def using i s0 inb ev by (intro terminateLoop_step) auto
  have 1: "n = length (m_nodes h') - (i + 1)" using Suc.prems(1) by (simp add: h'_def)
  have 2: "\<forall>k<n. 0 < sendtoRc e (length (sent h') + k)"
  proof (intro allI impI)
    fix k assume "k < n"
    then have "Suc k < Suc n" by simp
    with Suc.prems(2) have "0 < sendtoRc e (length (sent h) + Suc k)" by blast
    then show "0 < sendtoRc e (length (sent h') + k)" by (simp add: h'_def)
  qed
  have 3: "n \<le> length (inbox h')" using Suc.prems(3) inb by (simp add: h'_def)
  have 4: "list_all isDatagram (take n (inbox h'))" using Suc.prems(4) inb by (simp add: h'_def)
  note IH = Suc.IH [OF 1 2 3 4]
  have d: "drop i (m_nodes h) = m_nodes h ! i # drop (i + 1) (m_nodes h)"
    using i by (simp add: Cons_nth_drop_Suc)
  show ?case
    unfolding step using IH inb d
    by (simp add: h'_def wireView_def)
qed

text \<open>
  Claim C4. \<^verbatim>\<open>terminate\<close> goes through the ranks 1..N-1 in registry order, sends one
  Terminate packet (of the size of the header) to each and takes exactly one datagram
  from the socket for each. Whatever the datagrams hold (another operation, a result
  that is not success), the call returns \<^verbatim>\<open>MPI_SUCCESS\<close> as long as no \<^verbatim>\<open>sendto\<close> and
  no \<^verbatim>\<open>recvfrom\<close> fails. The instance after the theorem is the registry of size 4 whose
  rank 2 answers with a Send packet and whose rank 3 reports a failure.
\<close>

theorem terminate_sweeps_all_ranks:
  assumes "\<forall>k<length (m_nodes h) - 1. 0 < sendtoRc e (length (sent h) + k)"
    and "length (m_nodes h) - 1 \<le> length (inbox h)"
    and "list_all isDatagram (take (length (m_nodes h) - 1) (inbox h))"
  shows "fst (terminate e h) = Returns MPI_SUCCESS
       \<and> inbox (snd (terminate e h)) = drop (length (m_nodes h) - 1) (inbox h)
       \<and> map wireView (sent (snd (terminate e h))) =
           map wireView (sent h) @
           map (\<lambda>node. (node, MpiOpTerminate, [], headerSize e)) (drop 1 (m_nodes h))"
  using terminateLoop_sweep [OF refl assms] by (simp add: terminate_def)

theorem terminate_sweeps_all_ranks_witness:
  "fst (terminate pc (host4\<lparr>inbox :=
          [Datagram (zeroHdr\<lparr>h_operation := MpiOpTerminate\<rparr>) [],
           Datagram (zeroHdr\<lparr>h_operation := MpiOpSend\<rparr>) [],
           Datagram (zeroHdr\<lparr>h_operation := MpiOpTerminate, h_result := 1\<rparr>) []]\<rparr>))
     = Returns MPI_SUCCESS
   \<and> map wireView (sent (snd (terminate pc (host4\<lparr>inbox :=
          [Datagram (zeroHdr\<lparr>h_operation := MpiOpTerminate\<rparr>) [],
           Datagram (zeroHdr\<lparr>h_operation := MpiOpSend\<rparr>) [],
           Datagram (zeroHdr\<lparr>h_operation := MpiOpTerminate, h_result := 1\<rparr>) []]\<rparr>))))
     = [(node1, MpiOpTerminate, [], 16), (node2, MpiOpTerminate, [], 16),
        (node3, MpiOpTerminate, [], 16)]"
  using terminate_sweeps_all_ranks [of "host4\<lparr>inbox :=
          [Datagram (zeroHdr\<lparr>h_operation := MpiOpTerminate\<rparr>) [],
           Datagram (zeroHdr\<lparr>h_operation := MpiOpSend\<rparr>) [],
           Datagram (zeroHdr\<lparr>h_operation := MpiOpTerminate, h_result := 1\<rparr>) []]\<rparr>" pc]
  by (simp add: host4_def newHost_def pc_def)

subsection \<open>receive\<close>

text \<open>The rounds of the two loops.\<close>

lemma processData_done:
  "\<not> int j < datacount \<Longrightarrow> processData dt area datacount j i buf = (None, i, buf)"
  by (subst processData.simps) simp

lemma processData_other:
  "int j < datacount \<Longrightarrow>
   processData (MPI_OTHER k) area datacount j i buf =
     (Some (Returns MPI_ERR_UNSUPPORTED_DATAREP), i, buf)"
  by (subst processData.simps) simp

lemma processData_int_step:
  assumes "int j < datacount" and "j + 4 \<le> length area" and "4 * i + 4 \<le> length buf"
  shows "processData MPI_INT area datacount j i buf =
           processData MPI_INT area datacount (j + 1) (i + 1)
             (take (4 * i) buf @ take 4 (drop j area) @ drop (4 * i + 4) buf)"
  using assms by (subst processData.simps) simp

lemma processData_uchar_step:
  assumes "int j < datacount" and "j < length area" and "i < length buf"
  shows "processData MPI_UNSIGNED_CHAR area datacount j i buf =
           processData MPI_UNSIGNED_CHAR area datacount (j + 1) (i + 1) (buf[i := area ! j])"
  using assms by (subst processData.simps) simp

lemma receiveLoop_done:
  "\<not> int i < count \<Longrightarrow> receiveLoop e dt count i buf h = (Returns MPI_SUCCESS, buf, h)"
  by (subst receiveLoop.simps) simp

lemma receiveLoop_blocked:
  "int i < count \<Longrightarrow> inbox h = [] \<Longrightarrow> receiveLoop e dt count i buf h = (Blocked, buf, h)"
  by (subst receiveLoop.simps) (simp add: receivePacket_def)

lemma receiveLoop_datagram:
  assumes "int i < count" and "inbox h = Datagram dh dp # rest"
  shows "receiveLoop e dt count i buf h =
     (let pkt = (dh, take (payloadCapacity e) (dp @ drop (length dp) (snd (recvPacket h))));
          h' = h\<lparr>inbox := rest, recvPacket := pkt\<rparr>
      in if h_operation dh \<noteq> MpiOpRecv then receiveLoop e dt count i buf h'
         else (case processData dt (snd pkt) (h_datacount dh) 0 i buf of
                 (Some out, i', buf') \<Rightarrow> (out, buf', h')
               | (None, i', buf') \<Rightarrow> receiveLoop e dt count i' buf' h'))"
  using assms
  by (subst receiveLoop.simps) (simp add: receivePacket_def Let_def)

lemma receiveLoop_unsupported:
  assumes "int i < count" and "list_all passedOver pre"
    and "h_operation dh = MpiOpRecv" and "0 < h_datacount dh"
    and "inbox h = pre @ Datagram dh dp # post"
  shows "fst (receiveLoop e (MPI_OTHER k) count i buf h) = Returns MPI_ERR_UNSUPPORTED_DATAREP
       \<and> fst (snd (receiveLoop e (MPI_OTHER k) count i buf h)) = buf
       \<and> inbox (snd (snd (receiveLoop e (MPI_OTHER k) count i buf h))) = post
       \<and> sent (snd (snd (receiveLoop e (MPI_OTHER k) count i buf h))) = sent h"
  using assms(2,5)
proof (induction pre arbitrary: h)
  case Nil
  then have "inbox h = Datagram dh dp # post" by simp
  from receiveLoop_datagram [OF assms(1) this] assms(3,4)
  show ?case by (simp add: Let_def processData_other)
next
  case (Cons ev pre)
  from Cons.prems(1) obtain eh ep where ev: "ev = Datagram eh ep"
    and po: "h_operation eh \<noteq> MpiOpRecv \<or> h_datacount eh \<le> 0"
    by (cases ev) auto
  from Cons.prems(2) ev have inb: "inbox h = Datagram eh ep # (pre @ Datagram dh dp # post)"
    by simp
  define h' where "h' = h\<lparr>inbox := pre @ Datagram dh dp # post,
      recvPacket := (eh, take (payloadCapacity e) (ep @ drop (length ep) (snd (recvPacket h))))\<rparr>"
  have "receiveLoop e (MPI_OTHER k) count i buf h = receiveLoop e (MPI_OTHER k) count i buf h'"
    using receiveLoop_datagram [OF assms(1) inb, of e "MPI_OTHER k" buf] po
    by (auto simp: Let_def h'_def processData_done)
  moreover have "list_all passedOver pre" using Cons.prems(1) by simp
  moreover have "inbox h' = pre @ Datagram dh dp # post" by (simp add: h'_def)
  ultimately show ?case using Cons.IH [of h'] by (simp add: h'_def)
qed

text \<open>
  Claim C9. A \<^verbatim>\<open>receive\<close> of a positive number of elements of a datatype other than
  \<^verbatim>\<open>MPI_INT\<close> and \<^verbatim>\<open>MPI_UNSIGNED_CHAR\<close> fails with \<^verbatim>\<open>MPI_ERR_UNSUPPORTED_DATAREP\<close> at
  the first response packet that announces an element, after any number of datagrams
  that the loop passes over. The failure is at the first element, so no element was
  copied before it: the buffer is the one the caller passed.
\<close>

theorem receive_unsupported_datatype:
  assumes "0 < count"
    and "get (m_nodes h) (toSize e source) = Some node"
    and "0 < sendtoRc e (length (sent h))"
    and "inbox h = pre @ Datagram dh dp # post"
    and "list_all passedOver pre"
    and "h_operation dh = MpiOpRecv" and "0 < h_datacount dh"
  shows "fst (receive e buf count (MPI_OTHER k) source h) = Returns MPI_ERR_UNSUPPORTED_DATAREP
       \<and> fst (snd (receive e buf count (MPI_OTHER k) source h)) = buf
       \<and> inbox (snd (snd (receive e buf count (MPI_OTHER k) source h))) = post"
proof -
  define pkt where "pkt = ((fst (recvPacket h))\<lparr>h_operation := MpiOpRecv, h_rankId := source,
                        h_datatype := MPI_OTHER k, h_datacount := count\<rparr>, snd (recvPacket h))"
  define h' where "h' = snd (sendPacket e (toSize e source) pkt (headerSize e) (h\<lparr>recvPacket := pkt\<rparr>))"
  have r: "receive e buf count (MPI_OTHER k) source h = receiveLoop e (MPI_OTHER k) count 0 buf h'"
    using assms(2,3) by (simp add: receive_def Let_def sendPacket_def h'_def pkt_def)
  have i: "inbox h' = pre @ Datagram dh dp # post"
    using assms(2,4) by (simp add: h'_def sendPacket_def Let_def)
  have "int 0 < count" using assms(1) by simp
  from receiveLoop_unsupported [OF this assms(5,6,7) i, of e k buf]
  show ?thesis by (simp add: r)
qed

theorem receive_unsupported_datatype_witness:
  "fst (receive pc [9, 9] 2 (MPI_OTHER 7) 1
         (host3\<lparr>inbox := [Datagram (zeroHdr\<lparr>h_operation := MpiOpTerminate\<rparr>) [],
                           Datagram (zeroHdr\<lparr>h_operation := MpiOpRecv, h_datacount := 2\<rparr>) [1, 2]]\<rparr>))
     = Returns MPI_ERR_UNSUPPORTED_DATAREP
   \<and> fst (snd (receive pc [9, 9] 2 (MPI_OTHER 7) 1
         (host3\<lparr>inbox := [Datagram (zeroHdr\<lparr>h_operation := MpiOpTerminate\<rparr>) [],
                           Datagram (zeroHdr\<lparr>h_operation := MpiOpRecv, h_datacount := 2\<rparr>) [1, 2]]\<rparr>)))
     = [9, 9]"
  using receive_unsupported_datatype [of 2
     "host3\<lparr>inbox := [Datagram (zeroHdr\<lparr>h_operation := MpiOpTerminate\<rparr>) [],
                           Datagram (zeroHdr\<lparr>h_operation := MpiOpRecv, h_datacount := 2\<rparr>) [1, 2]]\<rparr>"
     pc 1 node1 "[Datagram (zeroHdr\<lparr>h_operation := MpiOpTerminate\<rparr>) []]"
     "zeroHdr\<lparr>h_operation := MpiOpRecv, h_datacount := 2\<rparr>" "[1, 2]" "[]" "[9, 9]" 7]
  by (simp add: host3_def newHost_def pc_def get_def toSize_def zeroHdr_def)

text \<open>
  Claim C1 says that \<^verbatim>\<open>receive\<close> rebuilds the requested sequence from the response
  packets, for integers and for bytes. The loop reads element \<open>j\<close> of a packet at byte
  \<open>j\<close> of the payload for both datatypes, so the integers of one packet are read from
  overlapping bytes: of the eight payload bytes \<open>b0 ... b7\<close> of a packet with two
  integers, the buffer receives \<open>b0 b1 b2 b3\<close> and then \<open>b1 b2 b3 b4\<close>.
\<close>

theorem receive_two_integers_in_one_packet:
  assumes "get (m_nodes h) (toSize e source) = Some node"
    and "0 < sendtoRc e (length (sent h))"
    and "inbox h = [Datagram dh [b0, b1, b2, b3, b4, b5, b6, b7]]"
    and "h_operation dh = MpiOpRecv" and "h_datacount dh = 2"
    and "length buf = 8" and "8 \<le> payloadCapacity e"
  shows "fst (receive e buf 2 MPI_INT source h) = Returns MPI_SUCCESS
       \<and> fst (snd (receive e buf 2 MPI_INT source h)) = [b0, b1, b2, b3, b1, b2, b3, b4]"
proof -
  define pkt where "pkt = ((fst (recvPacket h))\<lparr>h_operation := MpiOpRecv, h_rankId := source,
                        h_datatype := MPI_INT, h_datacount := 2\<rparr>, snd (recvPacket h))"
  define h' where "h' = snd (sendPacket e (toSize e source) pkt (headerSize e) (h\<lparr>recvPacket := pkt\<rparr>))"
  define dp where "dp = [b0, b1, b2, b3, b4, b5, b6, b7]"
  have r: "receive e buf 2 MPI_INT source h = receiveLoop e MPI_INT 2 0 buf h'"
    using assms(1,2) by (simp add: receive_def Let_def sendPacket_def h'_def pkt_def)
  have i: "inbox h' = Datagram dh dp # []"
    using assms(1,3) by (simp add: h'_def sendPacket_def Let_def dp_def)
  define area where "area = take (payloadCapacity e) (dp @ drop (length dp) (snd (recvPacket h')))"
  have "area = take (payloadCapacity e) dp @ take (payloadCapacity e - length dp) (drop (length dp) (snd (recvPacket h')))"
    unfolding area_def by (rule take_append)
  moreover have "take (payloadCapacity e) dp = dp" using assms(7) by (simp add: dp_def)
  ultimately obtain rest where a: "area = b0 # b1 # b2 # b3 # b4 # b5 # b6 # b7 # rest"
    by (simp add: dp_def)
  obtain c0 c1 c2 c3 c4 c5 c6 c7 where b: "buf = [c0, c1, c2, c3, c4, c5, c6, c7]"
    using assms(6) by (auto simp: length_Suc_conv eval_nat_numeral)
  have p: "processData MPI_INT area 2 0 0 buf = (None, 2, [b0, b1, b2, b3, b1, b2, b3, b4])"
    apply (subst processData_int_step; simp add: a b)
    apply (subst processData_int_step; simp)
    apply (subst processData_done; simp)
    done
  have "int 0 < 2" by simp
  from receiveLoop_datagram [OF this i, of e MPI_INT buf]
  have "receiveLoop e MPI_INT 2 0 buf h' =
          (case processData MPI_INT area (h_datacount dh) 0 0 buf of
             (Some out, i', buf') \<Rightarrow> (out, buf', h'\<lparr>inbox := [], recvPacket := (dh, area)\<rparr>)
           | (None, i', buf') \<Rightarrow>
               receiveLoop e MPI_INT 2 i' buf' (h'\<lparr>inbox := [], recvPacket := (dh, area)\<rparr>))"
    unfolding area_def Let_def using assms(4) by simp
  then show ?thesis using assms(5) p by (simp add: r receiveLoop_done)
qed

theorem receive_two_integers_in_one_packet_witness:
  "fst (receive pc [0, 0, 0, 0, 0, 0, 0, 0] 2 MPI_INT 1
      (host3\<lparr>inbox := [Datagram (zeroHdr\<lparr>h_operation := MpiOpRecv, h_datacount := 2\<rparr>)
                          [1, 0, 0, 0, 2, 0, 0, 0]]\<rparr>)) = Returns MPI_SUCCESS
   \<and> fst (snd (receive pc [0, 0, 0, 0, 0, 0, 0, 0] 2 MPI_INT 1
      (host3\<lparr>inbox := [Datagram (zeroHdr\<lparr>h_operation := MpiOpRecv, h_datacount := 2\<rparr>)
                          [1, 0, 0, 0, 2, 0, 0, 0]]\<rparr>))) = [1, 0, 0, 0, 0, 0, 0, 2]"
  using receive_two_integers_in_one_packet [of
      "host3\<lparr>inbox := [Datagram (zeroHdr\<lparr>h_operation := MpiOpRecv, h_datacount := 2\<rparr>)
                          [1, 0, 0, 0, 2, 0, 0, 0]]\<rparr>" pc 1 node1
      "zeroHdr\<lparr>h_operation := MpiOpRecv, h_datacount := 2\<rparr>" 1 0 0 0 2 0 0 0
      "[0, 0, 0, 0, 0, 0, 0, 0]"]
  by (simp add: host3_def newHost_def pc_def get_def toSize_def zeroHdr_def payloadCapacity_def)

text \<open>
  For bytes the stride is the element size, and the claim holds: whatever way the peer
  cuts the requested bytes into response packets, and whatever other datagrams arrive
  in between, \<^verbatim>\<open>receive\<close> returns success with the bytes in order.
\<close>

lemma processData_bytes:
  assumes "m = n - j" and "j \<le> n" and "n \<le> length area" and "i + (n - j) \<le> length buf"
  shows "processData MPI_UNSIGNED_CHAR area (int n) j i buf =
           (None, i + (n - j), take i buf @ take (n - j) (drop j area) @ drop (i + (n - j)) buf)"
  using assms
proof (induction m arbitrary: j i buf)
  case 0
  then have "\<not> int j < int n" by simp
  then show ?case using "0.prems" by (simp add: processData_done)
next
  case (Suc m)
  then have j: "j < n" "j < length area" and i: "i < length buf" by simp_all
  have step: "processData MPI_UNSIGNED_CHAR area (int n) j i buf =
        processData MPI_UNSIGNED_CHAR area (int n) (j + 1) (i + 1) (buf[i := area ! j])"
    using j i by (intro processData_uchar_step) simp_all
  have IH: "processData MPI_UNSIGNED_CHAR area (int n) (j + 1) (i + 1) (buf[i := area ! j]) =
        (None, i + 1 + (n - (j + 1)),
         take (i + 1) (buf[i := area ! j]) @ take (n - (j + 1)) (drop (j + 1) area)
           @ drop (i + 1 + (n - (j + 1))) (buf[i := area ! j]))"
    using Suc.prems by (intro Suc.IH) simp_all
  have a: "take (i + 1) (buf[i := area ! j]) = take i buf @ [area ! j]"
    using i by (simp add: take_Suc_conv_app_nth)
  have b: "drop (i + (n - j)) (buf[i := area ! j]) = drop (i + (n - j)) buf"
    using j by (intro drop_update_cancel) simp
  have c: "take (n - j) (drop j area) = area ! j # take (n - (j + 1)) (drop (j + 1) area)"
  proof -
    have "drop j area = area ! j # drop (j + 1) area" using j by (simp add: Cons_nth_drop_Suc)
    moreover have "n - j = Suc (n - (j + 1))" using j by simp
    ultimately show ?thesis by simp
  qed
  have d: "i + 1 + (n - (j + 1)) = i + (n - j)" using j by simp
  show ?case unfolding step IH d a b c by simp
qed

lemma receiveLoop_bytes:
  assumes "list_all (answers e) evs" and "inbox h = evs"
    and "i + length (concat (map elements evs)) = nat count"
    and "length buf = nat count"
  shows "fst (receiveLoop e MPI_UNSIGNED_CHAR count i buf h) = Returns MPI_SUCCESS
       \<and> fst (snd (receiveLoop e MPI_UNSIGNED_CHAR count i buf h))
           = take i buf @ concat (map elements evs)"
  using assms
proof (induction evs arbitrary: i buf h)
  case Nil
  then have "\<not> int i < count" and "take i buf = buf" by auto
  then show ?case by (simp add: receiveLoop_done)
next
  case (Cons ev evs)
  show ?case
  proof (cases "int i < count")
    case False
    then have "nat count \<le> i" by simp
    with Cons.prems(3) have "length (concat (map elements (ev # evs))) = 0" by linarith
    then have "concat (map elements (ev # evs)) = []" by (rule length_0_conv [THEN iffD1])
    moreover have "take i buf = buf" using Cons.prems(4) \<open>nat count \<le> i\<close> by simp
    ultimately show ?thesis using False by (simp add: receiveLoop_done del: elements.simps)
  next
    case True
    from Cons.prems(1) obtain dh dp where ev: "ev = Datagram dh dp" by (cases ev) auto
    define pkt where "pkt = (dh, take (payloadCapacity e) (dp @ drop (length dp) (snd (recvPacket h))))"
    define h' where "h' = h\<lparr>inbox := evs, recvPacket := pkt\<rparr>"
    have inb: "inbox h = Datagram dh dp # evs" using Cons.prems(2) ev by simp
    note loop = receiveLoop_datagram [OF True inb, of e MPI_UNSIGNED_CHAR buf,
        unfolded Let_def, folded pkt_def, folded h'_def]
    have rest: "list_all (answers e) evs" and inb': "inbox h' = evs"
      using Cons.prems(1) by (simp_all add: h'_def)
    show ?thesis
    proof (cases "h_operation dh = MpiOpRecv")
      case False
      then have "receiveLoop e MPI_UNSIGNED_CHAR count i buf h
                   = receiveLoop e MPI_UNSIGNED_CHAR count i buf h'"
        using loop by simp
      moreover have "i + length (concat (map elements evs)) = nat count"
        using Cons.prems(3) False ev by simp
      ultimately show ?thesis
        using Cons.IH [OF rest inb' _ Cons.prems(4)] False ev by simp
    next
      case True
      then have dc: "h_datacount dh = int (length dp)" and cap: "length dp \<le> payloadCapacity e"
        using Cons.prems(1) ev by simp_all
      have area: "snd pkt = dp @ take (payloadCapacity e - length dp) (drop (length dp) (snd (recvPacket h)))"
        using cap by (simp add: pkt_def)
      have fit: "i + length dp \<le> length buf"
        using Cons.prems(3,4) True ev by simp
      have "processData MPI_UNSIGNED_CHAR (snd pkt) (int (length dp)) 0 i buf =
              (None, i + (length dp - 0),
               take i buf @ take (length dp - 0) (drop 0 (snd pkt)) @ drop (i + (length dp - 0)) buf)"
        using fit by (intro processData_bytes [OF refl]) (simp_all add: area)
      then have p: "processData MPI_UNSIGNED_CHAR (snd pkt) (h_datacount dh) 0 i buf =
              (None, i + length dp, take i buf @ dp @ drop (i + length dp) buf)"
        by (simp add: dc area)
      define buf' where "buf' = take i buf @ dp @ drop (i + length dp) buf"
      have l: "receiveLoop e MPI_UNSIGNED_CHAR count i buf h
                 = receiveLoop e MPI_UNSIGNED_CHAR count (i + length dp) buf' h'"
        using loop True p by (simp add: buf'_def)
      have 3: "i + length dp + length (concat (map elements evs)) = nat count"
        using Cons.prems(3) True ev by simp
      have 4: "length buf' = nat count" using fit Cons.prems(4) by (simp add: buf'_def)
      have t: "take (i + length dp) buf' = take i buf @ dp"
        using fit by (simp add: buf'_def)
      show ?thesis
        using Cons.IH [OF rest inb' 3 4] True ev by (simp add: l t)
    qed
  qed
qed

lemma receive_bytes_in_order:
  assumes "get (m_nodes h) (toSize e source) = Some node"
    and "0 < sendtoRc e (length (sent h))"
    and "list_all (answers e) (inbox h)"
    and "length (concat (map elements (inbox h))) = nat count"
    and "length buf = nat count"
  shows "fst (receive e buf count MPI_UNSIGNED_CHAR source h) = Returns MPI_SUCCESS
       \<and> fst (snd (receive e buf count MPI_UNSIGNED_CHAR source h))
           = concat (map elements (inbox h))"
proof -
  define pkt where "pkt = ((fst (recvPacket h))\<lparr>h_operation := MpiOpRecv, h_rankId := source,
                        h_datatype := MPI_UNSIGNED_CHAR, h_datacount := count\<rparr>, snd (recvPacket h))"
  define h' where "h' = snd (sendPacket e (toSize e source) pkt (headerSize e) (h\<lparr>recvPacket := pkt\<rparr>))"
  have r: "receive e buf count MPI_UNSIGNED_CHAR source h
             = receiveLoop e MPI_UNSIGNED_CHAR count 0 buf h'"
    using assms(1,2) by (simp add: receive_def Let_def sendPacket_def h'_def pkt_def)
  have i: "inbox h' = inbox h"
    using assms(1) by (simp add: h'_def sendPacket_def Let_def)
  from receiveLoop_bytes [OF assms(3) i, of 0 count buf] assms(4,5)
  show ?thesis by (simp add: r)
qed

subsection \<open>parseHostsFile\<close>

text \<open>Splitting a text whose pieces are known.\<close>

lemma splitFrom_piece:
  "d \<notin> set a \<Longrightarrow> splitFrom d cur (a @ rest) = splitFrom d (cur @ a) rest"
  by (induction a arbitrary: cur) auto

lemma splitFrom_piece_end:
  "d \<notin> set a \<Longrightarrow> splitFrom d cur a = (if cur @ a = [] then [] else [cur @ a])"
  using splitFrom_piece [of d a cur "[]"] by simp

lemma String_split_hostsLine:
  assumes "lineOk l"
  shows "String_split (hostsLine l) (CHR '':'') = [fst l, fst (snd l), snd (snd l)]"
proof -
  obtain a b c where l: "l = (a, b, c)" by (cases l) auto
  have a: "CHR '':'' \<notin> set a" "a \<noteq> []" and b: "CHR '':'' \<notin> set b" "b \<noteq> []"
    and c: "CHR '':'' \<notin> set c" "c \<noteq> []"
    using assms by (simp_all add: l lineOk_def fieldOk_def)
  have "splitFrom (CHR '':'') [] (a @ CHR '':'' # b @ CHR '':'' # c)
        = splitFrom (CHR '':'') a (CHR '':'' # b @ CHR '':'' # c)"
    using splitFrom_piece [OF a(1), of "[]"] by simp
  also have "\<dots> = a # splitFrom (CHR '':'') [] (b @ CHR '':'' # c)"
    using a(2) by simp
  also have "splitFrom (CHR '':'') [] (b @ CHR '':'' # c) = splitFrom (CHR '':'') b (CHR '':'' # c)"
    using splitFrom_piece [OF b(1), of "[]"] by simp
  also have "\<dots> = b # splitFrom (CHR '':'') [] c"
    using b(2) by simp
  also have "splitFrom (CHR '':'') [] c = [c]"
    using splitFrom_piece_end [OF c(1), of "[]"] c(2) by simp
  finally show ?thesis by (simp add: String_split_def hostsLine_def l)
qed

lemma hostsLine_no_newline:
  assumes "lineOk l"
  shows "CHR 0x0A \<notin> set (hostsLine l)" and "hostsLine l \<noteq> []"
  using assms by (auto simp: lineOk_def fieldOk_def hostsLine_def)

lemma splitFrom_hostsText:
  assumes "list_all lineOk ls"
  shows "splitFrom (CHR 0x0A) [] (hostsText ls) = map hostsLine ls"
  using assms
proof (induction ls)
  case Nil
  then show ?case by (simp add: hostsText_def)
next
  case (Cons l ls)
  then have ok: "lineOk l" and rest: "list_all lineOk ls" by simp_all
  have "splitFrom (CHR 0x0A) [] (hostsLine l @ CHR 0x0A # hostsText ls)
        = splitFrom (CHR 0x0A) (hostsLine l) (CHR 0x0A # hostsText ls)"
    using splitFrom_piece [OF hostsLine_no_newline(1) [OF ok], of "[]"] by simp
  also have "\<dots> = hostsLine l # splitFrom (CHR 0x0A) [] (hostsText ls)"
    using hostsLine_no_newline(2) [OF ok] by simp
  finally show ?case using Cons.IH [OF rest] by (simp add: hostsText_def)
qed

lemma hostsText_no_NUL:
  assumes "list_all lineOk ls"
  shows "takeWhile (\<lambda>c. c \<noteq> CHR 0x00) (hostsText ls) = hostsText ls"
proof -
  have "CHR 0x00 \<notin> set (hostsText ls)"
    using assms by (induction ls) (auto simp: hostsText_def hostsLine_def lineOk_def fieldOk_def)
  then show ?thesis by (auto simp: takeWhile_eq_all_conv)
qed

lemma lineNode_hostsLine: "lineOk l \<Longrightarrow> lineNode (hostsLine l) = nodeOf l"
  by (simp add: lineNode_def nodeOf_def String_split_hostsLine)

lemma threeFields_hostsLine: "lineOk l \<Longrightarrow> threeFields (hostsLine l)"
  by (simp add: threeFields_def String_split_hostsLine)

lemma parseLines_good_line:
  assumes "threeFields line" and "allocs h < heapLimit e" and "length (m_nodes h) < maxNodes e"
  shows "parseLines e (line # rest) h =
           parseLines e rest (h\<lparr>allocs := Suc (allocs h), m_nodes := m_nodes h @ [lineNode line]\<rparr>)"
  using assms by (simp add: threeFields_def alloc_def insert_node_def lineNode_def Let_def)

lemma parseLines_bad_line:
  "\<not> threeFields line \<Longrightarrow> parseLines e (line # rest) h = (MPI_ERR_ARG, h)"
  by (simp add: threeFields_def Let_def)

lemma parseLines_good_prefix:
  assumes "list_all threeFields pre"
    and "allocs h + length pre \<le> heapLimit e"
    and "length (m_nodes h) + length pre \<le> maxNodes e"
  shows "\<exists>h'. parseLines e (pre @ rest) h = parseLines e rest h'
            \<and> m_nodes h' = m_nodes h @ map lineNode pre
            \<and> allocs h' = allocs h + length pre
            \<and> sent h' = sent h \<and> inbox h' = inbox h"
  using assms
proof (induction pre arbitrary: h)
  case Nil
  show ?case by (intro exI [of _ h]) simp
next
  case (Cons line pre)
  define h1 where "h1 = h\<lparr>allocs := Suc (allocs h), m_nodes := m_nodes h @ [lineNode line]\<rparr>"
  have step: "parseLines e ((line # pre) @ rest) h = parseLines e (pre @ rest) h1"
    using Cons.prems unfolding h1_def by (simp only: append_Cons, intro parseLines_good_line) auto
  have "\<exists>h'. parseLines e (pre @ rest) h1 = parseLines e rest h'
            \<and> m_nodes h' = m_nodes h1 @ map lineNode pre
            \<and> allocs h' = allocs h1 + length pre
            \<and> sent h' = sent h1 \<and> inbox h' = inbox h1"
    using Cons.prems by (intro Cons.IH) (auto simp: h1_def)
  then show ?case unfolding step by (auto simp: h1_def)
qed

text \<open>
  Claim C7. When the hosts text has a line that does not split into exactly three
  colon-separated fields, \<^verbatim>\<open>parseHostsFile\<close> fails with \<^verbatim>\<open>MPI_ERR_ARG\<close> at the first
  such line: the registry holds the nodes of the lines before it and no node for the
  line itself or a later one. (The file is read, and the registry and the heap have room
  for the lines before the malformed one.)
\<close>

theorem parseHostsFile_malformed_line:
  assumes "hostsFiles e path = Contents contents" and "contents \<noteq> []"
    and "String_split (takeWhile (\<lambda>c. c \<noteq> CHR 0x00) contents) (CHR 0x0A) = pre @ bad # post"
    and "list_all threeFields pre" and "\<not> threeFields bad"
    and "allocs h + length pre < heapLimit e"
    and "length (m_nodes h) + length pre \<le> maxNodes e"
  shows "fst (parseHostsFile e path h) = MPI_ERR_ARG
       \<and> m_nodes (snd (parseHostsFile e path h)) = m_nodes h @ map lineNode pre"
proof -
  define h1 where "h1 = h\<lparr>allocs := Suc (allocs h)\<rparr>"
  have p: "parseHostsFile e path h = parseLines e (pre @ bad # post) h1"
    using assms(1,2,3,6) by (simp add: parseHostsFile_def alloc_def h1_def)
  obtain h' where h': "parseLines e (pre @ bad # post) h1 = parseLines e (bad # post) h'"
      "m_nodes h' = m_nodes h1 @ map lineNode pre"
    using parseLines_good_prefix [OF assms(4), of h1 e "bad # post"] assms(6,7)
    by (auto simp: h1_def)
  have "parseHostsFile e path h = (MPI_ERR_ARG, h')"
    using parseLines_bad_line [OF assms(5), of e post h']
    by (simp add: p h'(1) del: parseLines.simps)
  moreover have "m_nodes h1 = m_nodes h" by (simp add: h1_def)
  ultimately show ?thesis by (simp add: h'(2))
qed

theorem parseHostsFile_malformed_line_witness:
  "fst (parseHostsFile (pc\<lparr>hostsFiles := (\<lambda>p. Contents brokenHosts)\<rparr>) ''hosts''
         (newHost\<lparr>m_nodes := [master]\<rparr>)) = MPI_ERR_ARG
   \<and> m_nodes (snd (parseHostsFile (pc\<lparr>hostsFiles := (\<lambda>p. Contents brokenHosts)\<rparr>) ''hosts''
         (newHost\<lparr>m_nodes := [master]\<rparr>))) = [master, node1]"
  using parseHostsFile_malformed_line [of "pc\<lparr>hostsFiles := (\<lambda>p. Contents brokenHosts)\<rparr>"
      "''hosts''" brokenHosts "[''10.0.0.2:9000:0'']" "''10.0.0.3:9000''" "[''10.0.0.4:9000:2'']"
      "newHost\<lparr>m_nodes := [master]\<rparr>"]
  by (simp add: pc_def newHost_def brokenHosts_def String_split_def threeFields_def
      lineNode_def node1_def inet_addr_def strtoul0_def isodigit_def isxdigit_def
      digitOf_def lastPart_def isdigit_def atoi_def isspace_def)

subsection \<open>startProcesses\<close>

text \<open>The rounds of the launch loop, for a command line that fits into a packet.\<close>

lemma startLoop_done:
  "\<not> i < length (m_nodes h) \<Longrightarrow> startLoop e cmdline i h = (MPI_SUCCESS, h)"
  by (subst startLoop.simps) simp

lemma startLoop_step:
  assumes "i < length (m_nodes h)"
    and "length cmdline \<le> payloadCapacity e" and "headerSize e \<le> maxPacketSize e"
    and "maxPacketSize e < 2 ^ sizeBits e"
  shows "startLoop e cmdline i h =
           (if sendtoRc e (length (sent h)) \<le> 0
            then (MPI_ERR_IO, h\<lparr>sent := sent h @ [execCall e cmdline (m_nodes h) i]\<rparr>)
            else startLoop e cmdline (i + 1)
                   (h\<lparr>sent := sent h @ [execCall e cmdline (m_nodes h) i]\<rparr>))"
proof -
  have "headerSize e + length cmdline \<le> maxPacketSize e"
    using assms(2,3) by (simp add: payloadCapacity_def)
  then have "headerSize e + length cmdline < 2 ^ sizeBits e" using assms(4) by simp
  then have w: "wrapSize e (headerSize e + length cmdline) = headerSize e + length cmdline"
    by (rule wrapSize_small)
  show ?thesis
    using assms(1,2)
    by (subst startLoop.simps) (simp add: w sendPacket_def get_def Let_def execCall_def)
qed

lemma startLoop_m_nodes: "m_nodes (snd (startLoop e cmdline i h)) = m_nodes h"
proof (induction e cmdline i h rule: startLoop.induct)
  case (1 e cmdline i h)
  show ?case
  proof (cases "i < length (m_nodes h)")
    case False
    then show ?thesis by (simp add: startLoop_done)
  next
    case True
    define hdr where "hdr = (stackHdr e)\<lparr>h_operation := MpiOpExec, h_result := 0, h_rankId := int i,
                     h_coreId := uint (coreId (m_nodes h ! i)),
                     h_coreCount := int (length (m_nodes h))\<rparr>"
    define sr where "sr = sendPacket e i (hdr, take (payloadCapacity e) (map of_char cmdline))
                    (wrapSize e (headerSize e + length cmdline)) h"
    have m: "m_nodes (snd sr) = m_nodes h"
      by (simp add: sr_def sendPacket_def Let_def split: option.splits)
    show ?thesis
    proof (cases "fst sr \<noteq> MPI_SUCCESS")
      case True
      with \<open>i < length (m_nodes h)\<close> show ?thesis
        by (subst startLoop.simps) (simp add: Let_def sr_def [symmetric] hdr_def [symmetric] m)
    next
      case False
      from "1.IH" [OF \<open>i < length (m_nodes h)\<close> hdr_def sr_def False]
      have "m_nodes (snd (startLoop e cmdline (i + 1) (snd sr))) = m_nodes h" by (simp add: m)
      with False \<open>i < length (m_nodes h)\<close> show ?thesis
        by (subst startLoop.simps) (simp add: Let_def sr_def [symmetric] hdr_def [symmetric])
    qed
  qed
qed

lemma startLoop_all_sent:
  assumes "n = length (m_nodes h) - i"
    and "\<forall>k<n. 0 < sendtoRc e (length (sent h) + k)"
    and "length cmdline \<le> payloadCapacity e" and "headerSize e \<le> maxPacketSize e"
    and "maxPacketSize e < 2 ^ sizeBits e"
  shows "startLoop e cmdline i h =
           (MPI_SUCCESS,
            h\<lparr>sent := sent h @ map (execCall e cmdline (m_nodes h)) [i..<length (m_nodes h)]\<rparr>)"
  using assms(1,2)
proof (induction n arbitrary: i h)
  case 0
  then have "\<not> i < length (m_nodes h)" by simp
  then show ?case by (simp add: startLoop_done)
next
  case (Suc n)
  from Suc.prems(1) have i: "i < length (m_nodes h)" by simp
  from Suc.prems(2) have s0: "0 < sendtoRc e (length (sent h))" by force
  define h' where "h' = h\<lparr>sent := sent h @ [execCall e cmdline (m_nodes h) i]\<rparr>"
  have step: "startLoop e cmdline i h = startLoop e cmdline (i + 1) h'"
    using startLoop_step [OF i assms(3,4,5)] s0 by (simp add: h'_def)
  have 1: "n = length (m_nodes h') - (i + 1)" using Suc.prems(1) by (simp add: h'_def)
  have 2: "\<forall>k<n. 0 < sendtoRc e (length (sent h') + k)"
  proof (intro allI impI)
    fix k assume "k < n"
    then have "Suc k < Suc n" by simp
    with Suc.prems(2) have "0 < sendtoRc e (length (sent h) + Suc k)" by blast
    then show "0 < sendtoRc e (length (sent h') + k)" by (simp add: h'_def)
  qed
  have u: "[i..<length (m_nodes h)] = i # [i + 1..<length (m_nodes h)]"
    using i by (simp add: upt_conv_Cons)
  show ?case
    unfolding step Suc.IH [OF 1 2] by (simp add: h'_def u)
qed

lemma startLoop_fails_at:
  assumes "i + k < length (m_nodes h)"
    and "\<forall>j<k. 0 < sendtoRc e (length (sent h) + j)"
    and "sendtoRc e (length (sent h) + k) \<le> 0"
    and "length cmdline \<le> payloadCapacity e" and "headerSize e \<le> maxPacketSize e"
    and "maxPacketSize e < 2 ^ sizeBits e"
  shows "startLoop e cmdline i h =
           (MPI_ERR_IO, h\<lparr>sent := sent h @ map (execCall e cmdline (m_nodes h)) [i..<i + k + 1]\<rparr>)"
  using assms(1,2,3)
proof (induction k arbitrary: i h)
  case 0
  then have i: "i < length (m_nodes h)" by simp
  show ?case using startLoop_step [OF i assms(4,5,6)] "0.prems"(3) by simp
next
  case (Suc k)
  from Suc.prems(1) have i: "i < length (m_nodes h)" by simp
  from Suc.prems(2) have s0: "0 < sendtoRc e (length (sent h))" by force
  define h' where "h' = h\<lparr>sent := sent h @ [execCall e cmdline (m_nodes h) i]\<rparr>"
  have step: "startLoop e cmdline i h = startLoop e cmdline (i + 1) h'"
    using startLoop_step [OF i assms(4,5,6)] s0 by (simp add: h'_def)
  have 1: "(i + 1) + k < length (m_nodes h')" using Suc.prems(1) by (simp add: h'_def)
  have 2: "\<forall>j<k. 0 < sendtoRc e (length (sent h') + j)"
  proof (intro allI impI)
    fix j assume "j < k"
    then have "Suc j < Suc k" by simp
    with Suc.prems(2) have "0 < sendtoRc e (length (sent h) + Suc j)" by blast
    then show "0 < sendtoRc e (length (sent h') + j)" by (simp add: h'_def)
  qed
  have 3: "sendtoRc e (length (sent h') + k) \<le> 0" using Suc.prems(3) by (simp add: h'_def)
  have u: "[i..<i + Suc k + 1] = i # [i + 1..<i + 1 + k + 1]"
    by (simp add: upt_conv_Cons del: upt_Suc)
  show ?case
    unfolding step Suc.IH [OF 1 2 3] u by (simp add: h'_def del: upt_Suc)
qed

text \<open>
  Command lines that fit. \<^verbatim>\<open>startProcesses\<close> builds one command line and sends, for the
  ranks 1..N-1 in registry order, an Execute packet with the rank, the core of the node and
  the size of the registry in its header; when the command line fits into the payload
  area, the payload is the command line and the size is the header size plus its
  length. It returns \<^verbatim>\<open>MPI_SUCCESS\<close> exactly when every \<^verbatim>\<open>sendto\<close> succeeds, and then
  all N-1 packets were sent; at the first \<^verbatim>\<open>sendto\<close> that fails it returns
  \<^verbatim>\<open>MPI_ERR_IO\<close>, and the later ranks are not attempted. There is no check of the size.
\<close>

theorem startProcesses_fail_fast:
  assumes "length (buildCmdline argv) \<le> payloadCapacity e"
    and "headerSize e \<le> maxPacketSize e" and "maxPacketSize e < 2 ^ sizeBits e"
  shows "((fst (startProcesses e argv h) = MPI_SUCCESS) \<longleftrightarrow>
            (\<forall>k<length (m_nodes h) - 1. 0 < sendtoRc e (length (sent h) + k)))
       \<and> ((\<forall>k<length (m_nodes h) - 1. 0 < sendtoRc e (length (sent h) + k)) \<longrightarrow>
            snd (startProcesses e argv h) =
              h\<lparr>sent := sent h @ map (execCall e (buildCmdline argv) (m_nodes h))
                                     [1..<length (m_nodes h)]\<rparr>)
       \<and> (\<forall>k<length (m_nodes h) - 1.
            (\<forall>j<k. 0 < sendtoRc e (length (sent h) + j)) \<and> sendtoRc e (length (sent h) + k) \<le> 0 \<longrightarrow>
            startProcesses e argv h =
              (MPI_ERR_IO,
               h\<lparr>sent := sent h @ map (execCall e (buildCmdline argv) (m_nodes h)) [1..<k + 2]\<rparr>))"
proof -
  let ?ok = "\<forall>k<length (m_nodes h) - 1. 0 < sendtoRc e (length (sent h) + k)"
  have all: "startProcesses e argv h =
               (MPI_SUCCESS, h\<lparr>sent := sent h @ map (execCall e (buildCmdline argv) (m_nodes h))
                                     [1..<length (m_nodes h)]\<rparr>)" if ?ok
    unfolding startProcesses_def using startLoop_all_sent [OF refl that assms] .
  have fails: "startProcesses e argv h =
              (MPI_ERR_IO,
               h\<lparr>sent := sent h @ map (execCall e (buildCmdline argv) (m_nodes h)) [1..<k + 2]\<rparr>)"
    if "k < length (m_nodes h) - 1" and "\<forall>j<k. 0 < sendtoRc e (length (sent h) + j)"
      and "sendtoRc e (length (sent h) + k) \<le> 0" for k
  proof -
    have "1 + k < length (m_nodes h)" using that(1) by simp
    from startLoop_fails_at [OF this that(2,3) assms]
    show ?thesis by (simp add: startProcesses_def del: upt_Suc)
  qed
  have only_if: "fst (startProcesses e argv h) \<noteq> MPI_SUCCESS" if "\<not> ?ok"
  proof -
    define bad where "bad k \<longleftrightarrow> k < length (m_nodes h) - 1 \<and> sendtoRc e (length (sent h) + k) \<le> 0" for k
    from that obtain k0 where "bad k0" by (auto simp: bad_def not_less)
    define k where "k = (LEAST k. bad k)"
    have k: "bad k" unfolding k_def using \<open>bad k0\<close> by (rule LeastI)
    have "\<forall>j<k. 0 < sendtoRc e (length (sent h) + j)"
    proof (intro allI impI)
      fix j assume "j < k"
      then have "\<not> bad j" unfolding k_def by (rule not_less_Least)
      moreover have "j < length (m_nodes h) - 1" using \<open>j < k\<close> k by (simp add: bad_def)
      ultimately show "0 < sendtoRc e (length (sent h) + j)" by (simp add: bad_def not_le)
    qed
    with k have "fst (startProcesses e argv h) = MPI_ERR_IO"
      using fails [of k] by (simp add: bad_def)
    then show ?thesis by simp
  qed
  show ?thesis
    using all fails only_if by (intro conjI iffI allI impI) auto
qed

text \<open>
  Claim C8. The claim has every Execute packet carry the command line cut to the
  payload capacity of the packet (\<^verbatim>\<open>MaximumPacketSize\<close> minus the header size), and an
  exceeded size answered by \<^verbatim>\<open>MPI_ERR_ARG\<close>. The code copies no more than the capacity
  into the packet, but hands \<^verbatim>\<open>sendto\<close> the header size plus the whole length of the
  command line, and checks no size. With packets of 20 bytes and a header of 16, the
  command line \<^verbatim>\<open>prog --flag\<close> of 11 bytes does not fit, on a registry of three nodes:
  \<^verbatim>\<open>startProcesses\<close> returns \<^verbatim>\<open>MPI_SUCCESS\<close>, and each of the two \<^verbatim>\<open>sendto\<close> calls is asked
  for 27 bytes of a packet of 20, of which the 4 bytes \<^verbatim>\<open>prog\<close> are payload.
\<close>

theorem startProcesses_oversized_cmdline:
  "fst (startProcesses (pc\<lparr>maxPacketSize := 20\<rparr>) [''prog'', ''--flag''] host3) = MPI_SUCCESS
   \<and> map s_size (sent (snd (startProcesses (pc\<lparr>maxPacketSize := 20\<rparr>) [''prog'', ''--flag''] host3)))
       = [27, 27]
   \<and> map s_payload (sent (snd (startProcesses (pc\<lparr>maxPacketSize := 20\<rparr>) [''prog'', ''--flag''] host3)))
       = [map of_char ''prog'', map of_char ''prog'']
   \<and> maxPacketSize (pc\<lparr>maxPacketSize := 20\<rparr>) = 20
   \<and> headerSize (pc\<lparr>maxPacketSize := 20\<rparr>) = 16
   \<and> buildCmdline [''prog'', ''--flag''] = ''prog --flag''"
  by (simp add: startProcesses_def buildCmdline_def basename_def startLoop.simps sendPacket_def
      get_def Let_def pc_def host3_def newHost_def wrapSize_def payloadCapacity_def)

theorem startProcesses_fail_fast_witness:
  "startProcesses pc [''prog'', ''--flag''] host3 =
     (MPI_SUCCESS,
      host3\<lparr>sent := [execCall pc ''prog --flag'' [master, node1, node2] 1,
                      execCall pc ''prog --flag'' [master, node1, node2] 2]\<rparr>)
   \<and> startProcesses (pc\<lparr>sendtoRc := (\<lambda>k. if k = 1 then - 1 else 16)\<rparr>) [''prog'', ''--flag''] host4 =
     (MPI_ERR_IO,
      host4\<lparr>sent := [execCall pc ''prog --flag'' [master, node1, node2, node3] 1,
                      execCall pc ''prog --flag'' [master, node1, node2, node3] 2]\<rparr>)"
proof -
  have c: "buildCmdline [''prog'', ''--flag''] = ''prog --flag''"
    by (simp add: buildCmdline_def basename_def)
  have u: "[1..<3] = [1, 2::nat]" by (simp add: upt_conv_Cons)
  have 1: "startProcesses pc [''prog'', ''--flag''] host3 =
     (MPI_SUCCESS,
      host3\<lparr>sent := [execCall pc ''prog --flag'' [master, node1, node2] 1,
                      execCall pc ''prog --flag'' [master, node1, node2] 2]\<rparr>)"
    using startProcesses_fail_fast [of "[''prog'', ''--flag'']" pc host3]
    by (simp add: c u) (simp add: pc_def host3_def newHost_def payloadCapacity_def execCall_def
        prod_eq_iff)
  define pcf where "pcf = pc\<lparr>sendtoRc := (\<lambda>k. if k = 1 then - 1 else 16)\<rparr>"
  have a: "length (buildCmdline [''prog'', ''--flag'']) \<le> payloadCapacity pcf"
    and b: "headerSize pcf \<le> maxPacketSize pcf" and d: "maxPacketSize pcf < 2 ^ sizeBits pcf"
    by (simp_all add: c pcf_def pc_def payloadCapacity_def)
  have k: "1 < length (m_nodes host4) - 1"
    and ok: "\<forall>j<1. 0 < sendtoRc pcf (length (sent host4) + j)"
    and bad: "sendtoRc pcf (length (sent host4) + 1) \<le> 0"
    by (simp_all add: pcf_def pc_def host4_def newHost_def)
  from startProcesses_fail_fast [OF a b d, of host4]
  have "\<forall>k<length (m_nodes host4) - 1.
            (\<forall>j<k. 0 < sendtoRc pcf (length (sent host4) + j))
            \<and> sendtoRc pcf (length (sent host4) + k) \<le> 0 \<longrightarrow>
            startProcesses pcf [''prog'', ''--flag''] host4 =
              (MPI_ERR_IO,
               host4\<lparr>sent := sent host4 @ map (execCall pcf (buildCmdline [''prog'', ''--flag''])
                                (m_nodes host4)) [1..<k + 2]\<rparr>)"
    by blast
  from this [rule_format, of 1] k ok bad
  have 2: "startProcesses (pc\<lparr>sendtoRc := (\<lambda>k. if k = 1 then - 1 else 16)\<rparr>) [''prog'', ''--flag''] host4 =
     (MPI_ERR_IO,
      host4\<lparr>sent := [execCall pc ''prog --flag'' [master, node1, node2, node3] 1,
                      execCall pc ''prog --flag'' [master, node1, node2, node3] 2]\<rparr>)"
    by (simp add: c u) (simp add: pcf_def pc_def host4_def newHost_def execCall_def)
  from 1 2 show ?thesis by simp
qed

subsection \<open>initialize\<close>

lemma hostsText_empty: "hostsText ls = [] \<longleftrightarrow> ls = []"
  by (cases ls) (simp_all add: hostsText_def)

lemma parseHostsFile_wellformed:
  assumes "hostsFiles e path = Contents (hostsText ls)" and "list_all lineOk ls"
    and "length (m_nodes h) + length ls \<le> maxNodes e"
    and "allocs h + length ls < heapLimit e"
  shows "m_nodes (snd (parseHostsFile e path h)) = m_nodes h @ map nodeOf ls"
    and "fst (parseHostsFile e path h) = (if ls = [] then MPI_ERR_IO else MPI_SUCCESS)"
proof -
  define h1 where "h1 = h\<lparr>allocs := Suc (allocs h)\<rparr>"
  have tf: "list_all threeFields (map hostsLine ls)"
    using assms(2) by (induction ls) (simp_all add: threeFields_hostsLine)
  have nodes: "map lineNode (map hostsLine ls) = map nodeOf ls"
    using assms(2) by (induction ls) (simp_all add: lineNode_hostsLine)
  obtain h' where h': "parseLines e (map hostsLine ls @ []) h1 = parseLines e [] h'"
      "m_nodes h' = m_nodes h1 @ map lineNode (map hostsLine ls)"
    using parseLines_good_prefix [OF tf, of h1 e "[]"] assms(3,4)
    by (auto simp: h1_def)
  have p: "parseHostsFile e path h =
             (if ls = [] then (MPI_ERR_IO, h1) else parseLines e (map hostsLine ls) h1)"
    using assms(1,4)
    by (simp add: parseHostsFile_def alloc_def h1_def hostsText_empty hostsText_no_NUL [OF assms(2)]
        String_split_def splitFrom_hostsText [OF assms(2)])
  have q: "parseLines e (map hostsLine ls) h1 = (MPI_SUCCESS, h')"
    using h'(1) by simp
  have "m_nodes h' = m_nodes h @ map nodeOf ls"
    unfolding h'(2) nodes by (simp add: h1_def)
  then show "m_nodes (snd (parseHostsFile e path h)) = m_nodes h @ map nodeOf ls"
    by (cases "ls = []") (simp_all add: p q, simp add: h1_def)
  show "fst (parseHostsFile e path h) = (if ls = [] then MPI_ERR_IO else MPI_SUCCESS)"
    by (simp add: p q)
qed

text \<open>The registry after \<^verbatim>\<open>initialize\<close>, for a hosts text given by the fields of its
  lines.\<close>

lemma initialize_registry_fields:
  assumes "2 \<le> length argv"
    and "hostsFiles e (argv ! 1) = Contents (hostsText ls)" and "list_all lineOk ls"
    and "m_nodes h = []"
    and "length ls < maxNodes e"
    and "allocs h + length ls + 2 \<le> heapLimit e"
  shows "m_nodes (snd (snd (initialize e argv h))) = master # map nodeOf ls
       \<and> getCommSize comm (snd (snd (initialize e argv h))) = (MPI_SUCCESS, int (length ls) + 1)"
proof -
  define h2 where "h2 = h\<lparr>allocs := Suc (allocs h), m_nodes := [master]\<rparr>"
  define pr where "pr = parseHostsFile e (argv ! 1) h2"
  have m: "m_nodes (snd pr) = master # map nodeOf ls"
    unfolding pr_def using parseHostsFile_wellformed(1) [OF assms(2,3), of h2] assms(5,6)
    by (simp add: h2_def)
  have "m_nodes (snd (snd (initialize e argv h))) = m_nodes (snd pr)"
    using assms(1,4,5,6)
    by (simp add: initialize_def alloc_def insert_node_def Let_def pr_def h2_def
        startProcesses_def startLoop_m_nodes)
  then show ?thesis by (simp add: m getCommSize_def)
qed

subsection \<open>Decimal numerals read back\<close>

text \<open>\<^verbatim>\<open>atoi\<close> and \<^verbatim>\<open>inet_addr\<close> read the decimal numerals of a well-formed line back
  as the numbers they were written from.\<close>

lemma digit_char:
  assumes "(d::nat) < 10"
  shows "(of_char (char_of (48 + d)) :: nat) = 48 + d"
  using assms by (simp add: of_char_of)

lemma digit_char_isdigit: "(d::nat) < 10 \<Longrightarrow> isdigit (char_of (48 + d))"
  by (simp add: isdigit_def digit_char)

lemma digit_char_int:
  assumes "d < 10"
  shows "(of_char (char_of (48 + d)) :: int) = 48 + int d"
proof -
  have "(of_char (char_of (48 + d)) :: int) = int (of_char (char_of (48 + d)))"
    by (simp only: of_nat_of_char)
  then show ?thesis using assms by (simp add: digit_char)
qed

lemma digit_char_digitOf: "(d::nat) < 10 \<Longrightarrow> digitOf (char_of (48 + d)) = d"
  by (simp add: digitOf_def isdigit_def digit_char)

lemma decimal_digits: "list_all isdigit (decimal n)"
proof (induction n rule: decimal.induct)
  case (1 n)
  show ?case
  proof (cases "n < 10")
    case True
    then show ?thesis by (subst decimal.simps) (simp add: digit_char_isdigit)
  next
    case False
    then have "list_all isdigit (decimal (n div 10))" by (rule "1.IH")
    moreover have "isdigit (char_of (48 + n mod 10))" by (intro digit_char_isdigit) simp
    ultimately show ?thesis using False by (subst decimal.simps) simp
  qed
qed

lemma decimal_nonempty: "decimal n \<noteq> []"
  by (subst decimal.simps) simp

lemma baseValue_append: "baseValue b acc (xs @ ys) = baseValue b (baseValue b acc xs) ys"
  by (induction xs arbitrary: acc) simp_all

lemma baseValue_decimal: "baseValue 10 0 (decimal n) = n"
proof (induction n rule: decimal.induct)
  case (1 n)
  show ?case
  proof (cases "n < 10")
    case True
    then show ?thesis by (subst decimal.simps) (simp add: digit_char_digitOf)
  next
    case False
    then have "baseValue 10 0 (decimal (n div 10)) = n div 10" by (rule "1.IH")
    moreover have "digitOf (char_of (48 + n mod 10)) = n mod 10" by (intro digit_char_digitOf) simp
    ultimately show ?thesis using False
      by (subst decimal.simps) (simp add: baseValue_append)
  qed
qed

lemma digitsValue_append:
  "list_all isdigit xs \<Longrightarrow> digitsValue acc (xs @ ys) = digitsValue (digitsValue acc xs) ys"
  by (induction xs arbitrary: acc) simp_all

lemma digitsValue_decimal: "digitsValue 0 (decimal n) = int n"
proof (induction n rule: decimal.induct)
  case (1 n)
  show ?case
  proof (cases "n < 10")
    case True
    then show ?thesis
      by (subst decimal.simps) (simp add: digit_char_isdigit digit_char_int)
  next
    case False
    then have "digitsValue 0 (decimal (n div 10)) = int (n div 10)" by (rule "1.IH")
    moreover have "isdigit (char_of (48 + n mod 10))" by (intro digit_char_isdigit) simp
    moreover have "(of_char (char_of (48 + n mod 10)) :: int) = 48 + int (n mod 10)"
      by (intro digit_char_int) simp
    ultimately show ?thesis using False
      by (subst decimal.simps) (simp add: digitsValue_append decimal_digits zdiv_int zmod_int)
  qed
qed


lemma isdigit_not_special:
  assumes "isdigit c"
  shows "c \<noteq> CHR '':''" and "c \<noteq> CHR ''.''" and "c \<noteq> CHR 0x0A" and "c \<noteq> CHR 0x00"
    and "c \<noteq> CHR ''-''" and "c \<noteq> CHR ''+''" and "\<not> isspace c"
  using assms by (auto simp: isdigit_def isspace_def)

lemma decimal_no_special:
  shows "CHR '':'' \<notin> set (decimal n)" and "CHR ''.'' \<notin> set (decimal n)"
    and "CHR 0x0A \<notin> set (decimal n)" and "CHR 0x00 \<notin> set (decimal n)"
proof -
  have a: "\<forall>c\<in>set (decimal n). isdigit c"
    using decimal_digits [of n] by (simp add: list_all_iff)
  show "CHR '':'' \<notin> set (decimal n)" using a isdigit_not_special(1) by blast
  show "CHR ''.'' \<notin> set (decimal n)" using a isdigit_not_special(2) by blast
  show "CHR 0x0A \<notin> set (decimal n)" using a isdigit_not_special(3) by blast
  show "CHR 0x00 \<notin> set (decimal n)" using a isdigit_not_special(4) by blast
qed

lemma char_of_48: "char_of (48::nat) = CHR ''0''"
  by code_simp

lemma decimal_zero: "decimal 0 = ''0''"
  by (subst decimal.simps) (simp add: char_of_48)

lemma decimal_head_nonzero: "0 < n \<Longrightarrow> hd (decimal n) \<noteq> CHR ''0''"
proof (induction n rule: decimal.induct)
  case (1 n)
  show ?case
  proof (cases "n < 10")
    case True
    have "(of_char (hd (decimal n)) :: nat) = 48 + n"
      using True by (subst decimal.simps) (simp add: digit_char)
    then show ?thesis using "1.prems" by auto
  next
    case False
    then have "hd (decimal (n div 10)) \<noteq> CHR ''0''" by (intro "1.IH") simp_all
    then show ?thesis using False decimal_nonempty [of "n div 10"]
      by (subst decimal.simps) simp
  qed
qed

lemma decimal_head:
  "\<exists>c cs. decimal n = c # cs \<and> isdigit c \<and> (0 < n \<longrightarrow> c \<noteq> CHR ''0'')"
proof -
  obtain c cs where d: "decimal n = c # cs" using decimal_nonempty [of n] by (cases "decimal n") auto
  moreover have "isdigit c" using decimal_digits [of n] d by simp
  moreover have "0 < n \<longrightarrow> c \<noteq> CHR ''0''" using decimal_head_nonzero [of n] d by simp
  ultimately show ?thesis by blast
qed

lemma atoi_decimal: "atoi (decimal n) = int n"
proof -
  obtain c cs where d: "decimal n = c # cs" and c: "isdigit c"
    using decimal_head [of n] by blast
  have "dropWhile isspace (decimal n) = c # cs"
    using isdigit_not_special(7) [OF c] by (simp add: d)
  then have "atoi (decimal n) = digitsValue 0 (c # cs)"
    using isdigit_not_special(5,6) [OF c] by (simp add: atoi_def)
  then show ?thesis using digitsValue_decimal [of n] by (simp add: d)
qed

lemma takeWhile_digits:
  assumes "list_all isdigit xs" and "rest = [] \<or> hd rest = CHR ''.''"
  shows "takeWhile isdigit (xs @ rest) = xs" and "dropWhile isdigit (xs @ rest) = rest"
proof -
  have r: "takeWhile isdigit rest = []" "dropWhile isdigit rest = rest"
    using assms(2) isdigit_not_special(2) by (cases rest; auto)+
  have a: "\<forall>x\<in>set xs. isdigit x" using assms(1) by (simp add: list_all_iff)
  show "takeWhile isdigit (xs @ rest) = xs" using a r by (simp add: takeWhile_append2)
  show "dropWhile isdigit (xs @ rest) = rest" using a r by (simp add: dropWhile_append2)
qed

lemma strtoul0_decimal:
  assumes "rest = [] \<or> hd rest = CHR ''.''"
  shows "strtoul0 (decimal n @ rest) = (n, rest)"
proof (cases "n = 0")
  case True
  have o: "takeWhile isodigit rest = []" "dropWhile isodigit rest = rest"
    using assms by (cases rest; auto simp: isodigit_def)+
  show ?thesis
    using assms o
    by (cases rest; cases "tl rest") (auto simp: True decimal_zero strtoul0_def isodigit_def)
next
  case False
  obtain c cs where d: "decimal n = c # cs" and c: "0 < n \<longrightarrow> c \<noteq> CHR ''0''"
    using decimal_head [of n] by blast
  have "strtoul0 (decimal n @ rest) =
          (baseValue 10 0 (takeWhile isdigit (decimal n @ rest)), dropWhile isdigit (decimal n @ rest))"
    using c False by (simp add: d strtoul0_def)
  then show ?thesis
    by (simp add: takeWhile_digits [OF decimal_digits assms] baseValue_decimal)
qed

lemma inet_aton_dot:
  assumes "val \<le> 255"
  shows "inet_aton_from (Suc k) parts (decimal val @ CHR ''.'' # rest) =
           inet_aton_from k (parts @ [val]) rest"
proof -
  obtain c cs where d: "decimal val = c # cs" and c: "isdigit c"
    using decimal_head [of val] by blast
  have s: "strtoul0 (c # cs @ CHR ''.'' # rest) = (val, CHR ''.'' # rest)"
    using strtoul0_decimal [of "CHR ''.'' # rest" val] by (simp add: d)
  show ?thesis using c assms by (simp add: d s)
qed

lemma inet_aton_last: "inet_aton_from k parts (decimal val) = lastPart parts val"
proof -
  obtain c cs where d: "decimal val = c # cs" and c: "isdigit c"
    using decimal_head [of val] by blast
  have s: "strtoul0 (c # cs) = (val, [])"
    using strtoul0_decimal [of "[]" val] by (simp add: d)
  show ?thesis using c by (simp add: d s)
qed

lemma lastPart_three: "d \<le> 255 \<Longrightarrow> lastPart [a, b, c] d = Some (((a * 256 + b) * 256 + c) * 256 + d)"
  by (simp add: lastPart_def)

lemma inet_addr_quad:
  assumes "a \<le> 255" and "b \<le> 255" and "c \<le> 255" and "d \<le> 255"
  shows "inet_addr (decimal a @ ''.'' @ decimal b @ ''.'' @ decimal c @ ''.'' @ decimal d) =
           word_of_nat (((a * 256 + b) * 256 + c) * 256 + d)"
proof -
  have "inet_aton_from (Suc (Suc (Suc 0))) []
             (decimal a @ CHR ''.'' # decimal b @ CHR ''.'' # decimal c @ CHR ''.'' # decimal d)
           = inet_aton_from (Suc (Suc 0)) ([] @ [a])
               (decimal b @ CHR ''.'' # decimal c @ CHR ''.'' # decimal d)"
    using assms(1) by (rule inet_aton_dot)
  also have "\<dots> = inet_aton_from (Suc 0) (([] @ [a]) @ [b]) (decimal c @ CHR ''.'' # decimal d)"
    using assms(2) by (rule inet_aton_dot)
  also have "\<dots> = inet_aton_from 0 ((([] @ [a]) @ [b]) @ [c]) (decimal d)"
    using assms(3) by (rule inet_aton_dot)
  also have "\<dots> = lastPart ((([] @ [a]) @ [b]) @ [c]) d"
    by (rule inet_aton_last)
  also have "\<dots> = Some (((a * 256 + b) * 256 + c) * 256 + d)"
    unfolding append_Nil append_Cons using assms(4) by (rule lastPart_three)
  finally have "inet_aton_from 3 []
          (decimal a @ CHR ''.'' # decimal b @ CHR ''.'' # decimal c @ CHR ''.'' # decimal d)
        = Some (((a * 256 + b) * 256 + c) * 256 + d)"
    by (simp only: numeral_3_eq_3)
  then show ?thesis by (simp only: inet_addr_def append_Cons append_Nil option.case)
qed

lemma entryFields_ok: "lineOk (entryFields x)"
  by (cases x) (simp add: lineOk_def fieldOk_def decimal_nonempty decimal_no_special)

lemma entryFields_line: "hostsLine (entryFields x) = entryLine x"
  by (cases x) (simp add: hostsLine_def)

lemma entryFields_node:
  assumes "entryOk x"
  shows "nodeOf (entryFields x) = entryNode x"
proof (cases x)
  case (HostEntry a b c d port core)
  then have "a \<le> 255" "b \<le> 255" "c \<le> 255" "d \<le> 255" using assms by simp_all
  then have "inet_addr (decimal a @ ''.'' @ decimal b @ ''.'' @ decimal c @ ''.'' @ decimal d) =
           word_of_nat (((a * 256 + b) * 256 + c) * 256 + d)"
    by (rule inet_addr_quad)
  then show ?thesis
    unfolding HostEntry entryFields.simps entryNode.simps nodeOf_def fst_conv snd_conv atoi_decimal
    by (simp only: of_int_of_nat_eq)
qed

lemma entriesText_fields: "hostsText (map entryFields es) = entriesText es"
  by (simp add: hostsText_def entriesText_def entryFields_line comp_def)

text \<open>
  Claim C5. For the hosts text of \<open>K\<close> well-formed lines \<^verbatim>\<open>ip:port:core\<close>, the registry
  after \<^verbatim>\<open>initialize\<close> holds \<open>K + 1\<close> nodes: at rank 0 the local node with
  \<open>ipAddress = 0\<close>, \<open>udpPort = 0\<close>, \<open>coreId = 0\<close>, and at the ranks 1..K the nodes the
  lines name, with the address, port and core written in the line, in the order of the
  file. (The registry was empty, and the index and the heap have room for \<open>K + 1\<close>
  nodes.)
\<close>

theorem initialize_registry:
  assumes "2 \<le> length argv"
    and "hostsFiles e (argv ! 1) = Contents (entriesText es)" and "list_all entryOk es"
    and "m_nodes h = []"
    and "length es < maxNodes e"
    and "allocs h + length es + 2 \<le> heapLimit e"
  shows "m_nodes (snd (snd (initialize e argv h)))
           = \<lparr>ipAddress = 0, udpPort = 0, coreId = 0\<rparr> # map entryNode es
       \<and> getCommSize comm (snd (snd (initialize e argv h))) = (MPI_SUCCESS, int (length es) + 1)"
proof -
  have 1: "hostsFiles e (argv ! 1) = Contents (hostsText (map entryFields es))"
    using assms(2) by (simp only: entriesText_fields)
  have 2: "list_all lineOk (map entryFields es)"
    by (simp add: list_all_iff entryFields_ok)
  have 3: "length (map entryFields es) < maxNodes e"
    and 4: "allocs h + length (map entryFields es) + 2 \<le> heapLimit e"
    using assms(5,6) by simp_all
  have n: "map nodeOf (map entryFields es) = map entryNode es"
    using assms(3) by (induction es) (simp_all add: entryFields_node)
  from initialize_registry_fields [OF assms(1) 1 2 assms(4) 3 4, of comm]
  show ?thesis unfolding n by (simp add: master_def)
qed

theorem initialize_registry_witness:
  "m_nodes (snd (snd (initialize pc [''prog'', ''hosts'', ''--flag''] newHost)))
     = [\<lparr>ipAddress = 0, udpPort = 0, coreId = 0\<rparr>,
        \<lparr>ipAddress = 167772162, udpPort = 9000, coreId = 0\<rparr>,
        \<lparr>ipAddress = 167772163, udpPort = 9000, coreId = 1\<rparr>]
   \<and> getCommSize () (snd (snd (initialize pc [''prog'', ''hosts'', ''--flag''] newHost)))
     = (MPI_SUCCESS, 3)"
proof -
  define es where "es = [HostEntry 10 0 0 2 9000 0, HostEntry 10 0 0 3 9000 1]"
  have c: "char_of (48::nat) = CHR ''0''" "char_of (49::nat) = CHR ''1''"
    "char_of (50::nat) = CHR ''2''" "char_of (51::nat) = CHR ''3''"
    "char_of (57::nat) = CHR ''9''"
    by code_simp+
  have d: "decimal 0 = ''0''" "decimal 2 = ''2''" "decimal 3 = ''3''"
    "decimal 10 = ''10''" "decimal 9000 = ''9000''"
    by (simp_all add: decimal.simps c)
  have d1: "decimal 1 = ''1''"
    by (simp add: decimal.simps c)
  have t: "entriesText es = twoHosts"
    unfolding es_def using d1 by (simp add: entriesText_def twoHosts_def d)
  have ok: "list_all entryOk es"
    unfolding es_def by simp
  have len: "length es = 2"
    unfolding es_def by simp
  have m: "map entryNode es = [\<lparr>ipAddress = 167772162, udpPort = 9000, coreId = 0\<rparr>,
        \<lparr>ipAddress = 167772163, udpPort = 9000, coreId = 1\<rparr>]"
    unfolding es_def by simp
  have f: "hostsFiles pc ''hosts'' = Contents (entriesText es)"
    by (simp add: t pc_def)
  have r: "m_nodes newHost = []" "length es < maxNodes pc"
    "allocs newHost + length es + 2 \<le> heapLimit pc"
    by (simp_all add: len pc_def newHost_def)
  have a: "[''prog'', ''hosts'', ''--flag''] ! 1 = ''hosts''"
    by simp
  show ?thesis
    using initialize_registry [of "[''prog'', ''hosts'', ''--flag'']" pc es newHost "()"] f r ok
    unfolding a m len by simp
qed

text \<open>
  Claim C6. With the hosts text \<^verbatim>\<open>"10.0.0.2:9000:0\n10.0.0.3:9000:1\n"\<close> and the
  arguments \<^verbatim>\<open>prog --flag\<close>, \<^verbatim>\<open>initialize\<close> leaves the registry
  of the local node (address 0, port 0, core 0), the node 10.0.0.2 (the address
  0x0A000002, 167772162) with port 9000 and core 0, and the node 10.0.0.3 with port 9000
  and core 1;
  \<^verbatim>\<open>getCommSize\<close> answers 3, and exactly two packets are sent: an Execute packet to
  rank 1 with rankId 1, coreId 0, coreCount 3 and one to rank 2 with rankId 2, coreId 1,
  coreCount 3, both with the payload \<^verbatim>\<open>prog --flag\<close>.
\<close>

theorem two_hosts_scenario:
  assumes "hostsFiles e path = Contents twoHosts"
    and "m_nodes h = []" and "3 \<le> maxNodes e" and "allocs h + 4 \<le> heapLimit e"
    and "0 \<le> socketRc e" and "0 \<le> bindRc e"
    and "0 < sendtoRc e (length (sent h))" and "0 < sendtoRc e (Suc (length (sent h)))"
    and "headerSize e + 11 \<le> maxPacketSize e" and "maxPacketSize e < 2 ^ sizeBits e"
  shows "fst (initialize e [''prog'', path, ''--flag''] h) = Returns MPI_SUCCESS
       \<and> fst (snd (initialize e [''prog'', path, ''--flag''] h)) = [''prog'', ''--flag'']
       \<and> m_nodes (snd (snd (initialize e [''prog'', path, ''--flag''] h))) =
           [\<lparr>ipAddress = 0, udpPort = 0, coreId = 0\<rparr>,
            \<lparr>ipAddress = 167772162, udpPort = 9000, coreId = 0\<rparr>,
            \<lparr>ipAddress = 167772163, udpPort = 9000, coreId = 1\<rparr>]
       \<and> getCommSize comm (snd (snd (initialize e [''prog'', path, ''--flag''] h))) = (MPI_SUCCESS, 3)
       \<and> sent (snd (snd (initialize e [''prog'', path, ''--flag''] h))) =
           sent h @
           [\<lparr>s_dest = node1,
             s_hdr = (stackHdr e)\<lparr>h_operation := MpiOpExec, h_result := 0, h_rankId := 1,
                       h_coreId := 0, h_coreCount := 3\<rparr>,
             s_payload = map of_char ''prog --flag'', s_size = headerSize e + 11\<rparr>,
            \<lparr>s_dest = node2,
             s_hdr = (stackHdr e)\<lparr>h_operation := MpiOpExec, h_result := 0, h_rankId := 2,
                       h_coreId := 1, h_coreCount := 3\<rparr>,
             s_payload = map of_char ''prog --flag'', s_size = headerSize e + 11\<rparr>]"
proof -
  define h2 where "h2 = h\<lparr>allocs := Suc (allocs h), m_nodes := [master]\<rparr>"
  define h3 where "h3 = h\<lparr>allocs := allocs h + 4, m_nodes := [master, node1, node2]\<rparr>"
  have lines: "String_split (takeWhile (\<lambda>c. c \<noteq> CHR 0x00) twoHosts) (CHR 0x0A)
                 = [''10.0.0.2:9000:0'', ''10.0.0.3:9000:1'']"
    by (simp add: twoHosts_def String_split_def)
  have f1: "String_split ''10.0.0.2:9000:0'' (CHR '':'') = [''10.0.0.2'', ''9000'', ''0'']"
    and f2: "String_split ''10.0.0.3:9000:1'' (CHR '':'') = [''10.0.0.3'', ''9000'', ''1'']"
    by (simp_all add: String_split_def)
  have n1: "\<lparr>ipAddress = inet_addr ''10.0.0.2'', udpPort = word_of_int (atoi ''9000''),
             coreId = word_of_int (atoi ''0'')\<rparr> = node1"
    and n2: "\<lparr>ipAddress = inet_addr ''10.0.0.3'', udpPort = word_of_int (atoi ''9000''),
             coreId = word_of_int (atoi ''1'')\<rparr> = node2"
    by (simp_all add: node1_def node2_def inet_addr_def strtoul0_def isodigit_def isxdigit_def
      digitOf_def lastPart_def isdigit_def atoi_def isspace_def)
  have "twoHosts \<noteq> []" by (simp add: twoHosts_def)
  then have parse: "parseHostsFile e path h2 = (MPI_SUCCESS, h3)"
    using assms(1,3,4)
    by (simp add: parseHostsFile_def lines f1 f2 n1 n2 alloc_def insert_node_def Let_def
        h2_def h3_def)
  have c: "buildCmdline [''prog'', ''--flag''] = ''prog --flag''"
    by (simp add: buildCmdline_def basename_def)
  define h4 where "h4 = h3\<lparr>m_sock := socketRc e\<rparr>"
  have fit: "length ''prog --flag'' \<le> payloadCapacity e" and hm: "headerSize e \<le> maxPacketSize e"
    using assms(9) by (simp_all add: payloadCapacity_def)
  have ok: "\<forall>k<2. 0 < sendtoRc e (length (sent h4) + k)"
    using assms(7,8) by (auto simp: h4_def h3_def less_Suc_eq numeral_2_eq_2)
  have "2 = length (m_nodes h4) - 1" by (simp add: h4_def h3_def)
  from startLoop_all_sent [OF this ok fit hm assms(10)]
  have "startLoop e ''prog --flag'' 1 h4 =
          (MPI_SUCCESS,
           h4\<lparr>sent := sent h4 @ map (execCall e ''prog --flag'' (m_nodes h4))
                                   [1..<length (m_nodes h4)]\<rparr>)" .
  moreover have "[1..<length (m_nodes h4)] = [1, 2]"
    by (simp add: h4_def h3_def upt_conv_Cons)
  ultimately have start: "startProcesses e [''prog'', ''--flag''] h4 =
                 (MPI_SUCCESS,
                  h4\<lparr>sent := sent h4 @ [execCall e ''prog --flag'' (m_nodes h4) 1,
                                         execCall e ''prog --flag'' (m_nodes h4) 2]\<rparr>)"
    by (simp add: startProcesses_def c)
  have init: "initialize e [''prog'', path, ''--flag''] h =
                (Returns MPI_SUCCESS, [''prog'', ''--flag''],
                 h4\<lparr>sent := sent h4 @ [execCall e ''prog --flag'' (m_nodes h4) 1,
                                        execCall e ''prog --flag'' (m_nodes h4) 2]\<rparr>)"
    using assms(2,3,4,5,6)
    by (simp add: initialize_def alloc_def insert_node_def Let_def h2_def [symmetric] parse
        h4_def [symmetric] start)
  show ?thesis
    unfolding init
    by (simp add: h4_def h3_def getCommSize_def execCall_def master_def node1_def node2_def)
qed

theorem two_hosts_scenario_witness:
  "fst (initialize pc [''prog'', ''hosts'', ''--flag''] newHost) = Returns MPI_SUCCESS
   \<and> m_nodes (snd (snd (initialize pc [''prog'', ''hosts'', ''--flag''] newHost)))
       = [\<lparr>ipAddress = 0, udpPort = 0, coreId = 0\<rparr>,
          \<lparr>ipAddress = 167772162, udpPort = 9000, coreId = 0\<rparr>,
          \<lparr>ipAddress = 167772163, udpPort = 9000, coreId = 1\<rparr>]
   \<and> getCommSize () (snd (snd (initialize pc [''prog'', ''hosts'', ''--flag''] newHost)))
       = (MPI_SUCCESS, 3)
   \<and> map wireView (sent (snd (snd (initialize pc [''prog'', ''hosts'', ''--flag''] newHost))))
       = [(node1, MpiOpExec, map of_char ''prog --flag'', 27),
          (node2, MpiOpExec, map of_char ''prog --flag'', 27)]"
  using two_hosts_scenario [of pc "''hosts''" newHost "()"]
  by (simp add: pc_def newHost_def wireView_def)


end
